theory Spec2Isabelle
  imports Complex_Main "HOL-Library.Multiset" "HOL-Library.Log_Nat"
begin

section \<open>Python values\<close>

subsection \<open>Floats\<close>

text \<open>
  A Python \<^verbatim>\<open>float\<close> is an IEEE 754 binary64 number. A finite float is modelled by the
  rational it denotes; every arithmetic operation computes the exact rational result and
  rounds it to the nearest number with a 53-bit significand, ties to the even significand
  (\<open>fl\<close>). The exponent range is not bounded in the model: overflow to infinity and
  subnormal numbers do not occur at the magnitudes the pipeline computes with (ratios,
  percentages, pixel coordinates).
\<close>

definition round_half_even :: "rat \<Rightarrow> int" where
  "round_half_even q =
     (let f = \<lfloor>q\<rfloor>; d = q - of_int f
      in if d < 1 / 2 then f else if 1 / 2 < d then f + 1 else if even f then f else f + 1)"

text \<open>The exponent \<open>e\<close> of the last significand bit: \<open>2^52 \<le> |q| / 2^e < 2^53\<close>.\<close>

definition expo :: "rat \<Rightarrow> int" where
  "expo q =
     (let (a, b) = quotient_of \<bar>q\<bar>; e = bitlen a - bitlen b - 53
      in if 2 ^ 53 \<le> \<bar>q\<bar> / 2 powi e then e + 1 else e)"

definition fl :: "rat \<Rightarrow> rat" where
  "fl q = (if q = 0 then 0 else of_int (round_half_even (q / 2 powi expo q)) * 2 powi expo q)"

text \<open>A float literal of the source, such as \<^verbatim>\<open>0.01\<close> or \<^verbatim>\<open>1e-16\<close>.\<close>

definition float_lit :: "rat \<Rightarrow> rat" where
  "float_lit q = fl q"

text \<open>\<^verbatim>\<open>float(i)\<close>, also the implicit conversion of an \<^verbatim>\<open>int\<close> operand.\<close>

definition float_of_int :: "int \<Rightarrow> rat" where
  "float_of_int i = fl (of_int i)"

definition fadd :: "rat \<Rightarrow> rat \<Rightarrow> rat" where
  "fadd x y = fl (x + y)"

definition fsub :: "rat \<Rightarrow> rat \<Rightarrow> rat" where
  "fsub x y = fl (x - y)"

definition fmul :: "rat \<Rightarrow> rat \<Rightarrow> rat" where
  "fmul x y = fl (x * y)"

text \<open>\<^verbatim>\<open>int(x)\<close> of a float truncates towards zero.\<close>

definition int_of_float :: "rat \<Rightarrow> int" where
  "int_of_float x = (if 0 \<le> x then \<lfloor>x\<rfloor> else \<lceil>x\<rceil>)"

subsection \<open>Exceptions\<close>

text \<open>
  The messages of the source are Chinese text; the model keeps what each message is about:
  the ratio sum interpolated into the splitter's message, the two fixed messages, and the
  literal that \<^verbatim>\<open>int()\<close> rejected. \<open>OSError\<close> stands for the file-system exceptions
  (\<^verbatim>\<open>FileExistsError\<close>, \<^verbatim>\<open>FileNotFoundError\<close>, \<^verbatim>\<open>IsADirectoryError\<close>,
  \<^verbatim>\<open>NotADirectoryError\<close>, \<^verbatim>\<open>shutil.SameFileError\<close>), all subclasses of it.
\<close>

datatype message =
    RatioSum rat
  | NoImageFiles
  | NoAnnotations
  | InvalidIntLiteral string

datatype py_error = ValueError message | ZeroDivisionError | OSError

text \<open>\<^verbatim>\<open>x / y\<close> on floats, and \<^verbatim>\<open>a / b\<close> on ints (true division, correctly rounded).\<close>

definition fdiv :: "rat \<Rightarrow> rat \<Rightarrow> py_error + rat" where
  "fdiv x y = (if y = 0 then Inl ZeroDivisionError else Inr (fl (x / y)))"

definition truediv_int :: "int \<Rightarrow> int \<Rightarrow> py_error + rat" where
  "truediv_int a b =
     (if b = 0 then Inl ZeroDivisionError else Inr (fl (of_int a / of_int b)))"

subsection \<open>Slices\<close>

text \<open>
  \<^verbatim>\<open>xs[lo:hi]\<close>: a negative index counts from the end, and both indices are clamped to
  \<open>0..len(xs)\<close>; the slice is empty when the start is not before the stop.
\<close>

definition slice_index :: "nat \<Rightarrow> int \<Rightarrow> nat" where
  "slice_index n i = (if i < 0 then nat (max 0 (int n + i)) else min n (nat i))"

definition py_slice :: "'a list \<Rightarrow> int option \<Rightarrow> int option \<Rightarrow> 'a list" where
  "py_slice xs lo hi =
     (let n = length xs;
          a = (case lo of None \<Rightarrow> 0 | Some i \<Rightarrow> slice_index n i);
          b = (case hi of None \<Rightarrow> n | Some i \<Rightarrow> slice_index n i)
      in take (b - a) (drop a xs))"

section \<open>DatasetPreparer: splitting\<close>

subsection \<open>List objects and the random generator\<close>

text \<open>
  Python lists are mutable objects reached through references. The store \<open>heap\<close> holds the
  list objects, a reference is an index into it. \<open>rng_pos\<close> counts the draws taken from the
  module-level random generator, whose stream of raw draws is the parameter \<open>draws\<close> of
  the functions below (the seed).
\<close>

record 'a pystate =
  heap :: "'a list list"
  rng_pos :: nat

definition alloc :: "'a list \<Rightarrow> 'a pystate \<Rightarrow> nat \<times> 'a pystate" where
  "alloc xs s = (length (heap s), s\<lparr>heap := heap s @ [xs]\<rparr>)"

text \<open>\<^verbatim>\<open>files.copy()\<close>: a new list object with the same elements.\<close>

definition list_copy :: "nat \<Rightarrow> 'a pystate \<Rightarrow> nat \<times> 'a pystate" where
  "list_copy r s = alloc (heap s ! r) s"

text \<open>
  \<^verbatim>\<open>random.shuffle(x)\<close> of the standard library, in place:
  \<^verbatim>\<open>for i in reversed(range(1, len(x))): j = randbelow(i + 1); x[i], x[j] = x[j], x[i]\<close>.
  \<^verbatim>\<open>randbelow(i + 1)\<close> is the next draw reduced to \<open>0..i\<close>. \<open>shuffle_from\<close> runs the loop
  from index \<open>i\<close> down to \<open>1\<close> and returns the list and the new generator position.
\<close>

primrec shuffle_from :: "(nat \<Rightarrow> nat) \<Rightarrow> nat \<Rightarrow> 'a list \<Rightarrow> nat \<Rightarrow> 'a list \<times> nat" where
  "shuffle_from draws 0 xs pos = (xs, pos)"
| "shuffle_from draws (Suc k) xs pos =
     (let i = Suc k; j = draws pos mod (i + 1)
      in shuffle_from draws k (xs[i := xs ! j, j := xs ! i]) (Suc pos))"

definition random_shuffle :: "(nat \<Rightarrow> nat) \<Rightarrow> nat \<Rightarrow> 'a pystate \<Rightarrow> 'a pystate" where
  "random_shuffle draws r s =
     (let (xs, pos) = shuffle_from draws (length (heap s ! r) - 1) (heap s ! r) (rng_pos s)
      in s\<lparr>heap := (heap s)[r := xs], rng_pos := pos\<rparr>)"

text \<open>The order in which \<^verbatim>\<open>random.shuffle\<close> leaves a list, started at generator position \<open>pos\<close>.\<close>

definition shuffled :: "(nat \<Rightarrow> nat) \<Rightarrow> 'a list \<Rightarrow> nat \<Rightarrow> 'a list" where
  "shuffled draws xs pos = fst (shuffle_from draws (length xs - 1) xs pos)"

subsection \<open>\<^verbatim>\<open>DatasetPreparer._split_dataset\<close>\<close>

text \<open>
  The argument \<open>files\<close> is the reference the caller passes. The result is the raised
  exception or the three new lists, together with the state after the call.
\<close>

definition split_dataset ::
  "(nat \<Rightarrow> nat) \<Rightarrow> nat \<Rightarrow> rat \<Rightarrow> rat \<Rightarrow> rat \<Rightarrow> 'a pystate
    \<Rightarrow> (py_error + 'a list \<times> 'a list \<times> 'a list) \<times> 'a pystate" where
  "split_dataset draws files train_ratio val_ratio test_ratio s =
     (let total_ratio = fadd (fadd train_ratio val_ratio) test_ratio
      in if float_lit (1 / 100) < \<bar>fsub total_ratio (float_lit 1)\<bar>
         then (Inl (ValueError (RatioSum total_ratio)), s)
         else
           (let (files', s1) = list_copy files s;
                s2 = random_shuffle draws files' s1;
                xs = heap s2 ! files';
                total_files = int (length xs);
                train_count = int_of_float (fmul (float_of_int total_files) train_ratio);
                val_count = int_of_float (fmul (float_of_int total_files) val_ratio);
                train_files = py_slice xs None (Some train_count);
                val_files = py_slice xs (Some train_count) (Some (train_count + val_count));
                test_files = py_slice xs (Some (train_count + val_count)) None
            in (Inr (train_files, val_files, test_files), s2)))"

section \<open>ModelTrainer: progress and F1\<close>

text \<open>
  \<^verbatim>\<open>on_train_epoch_end\<close> in \<^verbatim>\<open>ModelTrainer._setup_callbacks\<close>:
  \<^verbatim>\<open>progress = int((trainer.epoch + 1) / trainer.epochs * 100)\<close>.
\<close>

definition on_train_epoch_end :: "int \<Rightarrow> int \<Rightarrow> py_error + int" where
  "on_train_epoch_end epoch epochs =
     (case truediv_int (epoch + 1) epochs of
        Inl e \<Rightarrow> Inl e
      | Inr r \<Rightarrow> Inr (int_of_float (fmul r (float_of_int 100))))"

text \<open>
  The training engine calls the callback once at the end of every epoch, with
  \<^verbatim>\<open>trainer.epoch\<close> running over \<open>0, ..., epochs - 1\<close>; the values passed to
  \<^verbatim>\<open>progress_callback\<close> during a run, in order:
\<close>

definition progress_values :: "nat \<Rightarrow> (py_error + int) list" where
  "progress_values epochs =
     map (\<lambda>i. on_train_epoch_end (int i) (int epochs)) [0..<epochs]"

text \<open>
  The \<^verbatim>\<open>f1_score\<close> entry of \<^verbatim>\<open>ModelTrainer.evaluate_model\<close>, from the engine's mean
  precision \<^verbatim>\<open>mp\<close> and mean recall \<^verbatim>\<open>mr\<close>:
  \<^verbatim>\<open>2 * (mp * mr) / (mp + mr + 1e-16)\<close>.
\<close>

definition f1_score :: "rat \<Rightarrow> rat \<Rightarrow> py_error + rat" where
  "f1_score mp mr =
     fdiv (fmul (float_of_int 2) (fmul mp mr))
          (fadd (fadd mp mr) (float_lit (1 / 10 ^ 16)))"

section \<open>Strings and dictionaries\<close>

text \<open>
  A \<^verbatim>\<open>str\<close> is modelled as a list of 8-bit characters, read as the code points below 256.
  \<open>is_space\<close> is \<^verbatim>\<open>str.isspace\<close> on these code points.
\<close>

definition is_space :: "char \<Rightarrow> bool" where
  "is_space c =
     (c \<in> set [CHR 0x09, CHR 0x0A, CHR 0x0B, CHR 0x0C, CHR 0x0D, CHR 0x1C, CHR 0x1D,
               CHR 0x1E, CHR 0x1F, CHR 0x20, CHR 0x85, CHR 0xA0])"

text \<open>\<^verbatim>\<open>s.strip()\<close>\<close>

definition py_strip :: "string \<Rightarrow> string" where
  "py_strip s = rev (dropWhile is_space (rev (dropWhile is_space s)))"

text \<open>
  \<^verbatim>\<open>s.split()\<close>: the maximal runs of non-whitespace characters. \<open>tok\<close> is the token being
  read, reversed.
\<close>

primrec split_from :: "string \<Rightarrow> string \<Rightarrow> string list" where
  "split_from tok [] = (if tok = [] then [] else [rev tok])"
| "split_from tok (c # cs) =
     (if is_space c
      then (if tok = [] then split_from [] cs else rev tok # split_from [] cs)
      else split_from (c # tok) cs)"

definition py_split :: "string \<Rightarrow> string list" where
  "py_split s = split_from [] s"

text \<open>
  \<^verbatim>\<open>int(s)\<close> for a string, base 10: surrounding whitespace, an optional sign, then decimal
  digits, where single underscores may stand between digits.
\<close>

definition digit_value :: "char \<Rightarrow> nat option" where
  "digit_value c =
     (let n = (of_char c :: nat) in if 48 \<le> n \<and> n \<le> 57 then Some (n - 48) else None)"

fun digits_value :: "nat \<Rightarrow> string \<Rightarrow> nat option" where
  "digits_value acc [] = Some acc"
| "digits_value acc [c] =
     (case digit_value c of None \<Rightarrow> None | Some v \<Rightarrow> Some (10 * acc + v))"
| "digits_value acc (c # d # cs) =
     (if c = CHR ''_''
      then (case digit_value d of None \<Rightarrow> None | Some v \<Rightarrow> digits_value (10 * acc + v) cs)
      else (case digit_value c of None \<Rightarrow> None
            | Some v \<Rightarrow> digits_value (10 * acc + v) (d # cs)))"

definition nat_of_string :: "string \<Rightarrow> nat option" where
  "nat_of_string s =
     (case s of [] \<Rightarrow> None
      | c # cs \<Rightarrow> (case digit_value c of None \<Rightarrow> None | Some v \<Rightarrow> digits_value v cs))"

definition int_of_string :: "string \<Rightarrow> py_error + int" where
  "int_of_string s =
     (let t = py_strip s;
          (negative, body) =
            (case t of [] \<Rightarrow> (False, [])
             | c # cs \<Rightarrow>
                 if c = CHR ''-'' then (True, cs)
                 else if c = CHR ''+'' then (False, cs) else (False, t))
      in case nat_of_string body of
           None \<Rightarrow> Inl (ValueError (InvalidIntLiteral s))
         | Some n \<Rightarrow> Inr (if negative then - int n else int n))"

text \<open>
  Reading a file opened in text mode translates \<^verbatim>\<open>\r\n\<close> and \<^verbatim>\<open>\r\<close> to \<^verbatim>\<open>\n\<close>
  (universal newlines); \<^verbatim>\<open>f.readlines()\<close> cuts the text after every \<^verbatim>\<open>\n\<close>, each line
  keeping its newline, and a non-empty rest after the last newline is a line too.
\<close>

fun universal_newlines :: "string \<Rightarrow> string" where
  "universal_newlines [] = []"
| "universal_newlines [c] = (if c = CHR 0x0D then [CHR 0x0A] else [c])"
| "universal_newlines (c # d # cs) =
     (if c = CHR 0x0D
      then (if d = CHR 0x0A then CHR 0x0A # universal_newlines cs
            else CHR 0x0A # universal_newlines (d # cs))
      else c # universal_newlines (d # cs))"

primrec lines_from :: "string \<Rightarrow> string \<Rightarrow> string list" where
  "lines_from cur [] = (if cur = [] then [] else [rev cur])"
| "lines_from cur (c # cs) =
     (if c = CHR 0x0A then rev (c # cur) # lines_from [] cs else lines_from (c # cur) cs)"

definition readlines :: "string \<Rightarrow> string list" where
  "readlines text = lines_from [] (universal_newlines text)"

text \<open>
  A \<^verbatim>\<open>dict\<close> as an association list in insertion order: \<^verbatim>\<open>d.get(k, dflt)\<close> and
  \<^verbatim>\<open>d[k] = v\<close>.
\<close>

primrec dict_get :: "('k \<times> 'v) list \<Rightarrow> 'k \<Rightarrow> 'v \<Rightarrow> 'v" where
  "dict_get [] k dflt = dflt"
| "dict_get (e # d) k dflt = (if fst e = k then snd e else dict_get d k dflt)"

primrec dict_set :: "('k \<times> 'v) list \<Rightarrow> 'k \<Rightarrow> 'v \<Rightarrow> ('k \<times> 'v) list" where
  "dict_set [] k v = [(k, v)]"
| "dict_set (e # d) k v = (if fst e = k then (k, v) # d else e # dict_set d k v)"

section \<open>Paths and the file system\<close>

text \<open>
  A \<^verbatim>\<open>pathlib.Path\<close> is its anchor (absolute or not) and its components; two paths are
  equal, and hash alike, exactly when these agree. \<^verbatim>\<open>Path(".")\<close> is the relative path with
  no component. Components are plain names: \<^verbatim>\<open>..\<close> and symbolic links are not modelled.
\<close>

datatype path = Path (absolute: bool) (parts: "string list")

text \<open>\<^verbatim>\<open>p / name\<close>\<close>

definition joinpath :: "path \<Rightarrow> string \<Rightarrow> path" where
  "joinpath p n = Path (absolute p) (parts p @ [n])"

text \<open>\<^verbatim>\<open>p.name\<close>, and \<^verbatim>\<open>p.stem\<close>: the name without its last suffix, where a leading or a
  trailing dot starts no suffix.\<close>

definition name :: "path \<Rightarrow> string" where
  "name p = (if parts p = [] then [] else last (parts p))"

definition stem_of :: "string \<Rightarrow> string" where
  "stem_of n =
     (let suffix = takeWhile (\<lambda>c. c \<noteq> CHR ''.'') (rev n);
          i = length n - length suffix - 1
      in if CHR ''.'' \<in> set n \<and> 0 < i \<and> suffix \<noteq> [] then take i n else n)"

definition stem :: "path \<Rightarrow> string" where
  "stem p = stem_of (name p)"

text \<open>
  The file system: the working directory, the directories and the regular files with their
  content, all by absolute path.
\<close>

record filesystem =
  cwd :: "string list"
  dirs :: "string list list"
  regular_files :: "(string list \<times> string) list"

definition resolve :: "filesystem \<Rightarrow> path \<Rightarrow> string list" where
  "resolve fs p = (if absolute p then parts p else cwd fs @ parts p)"

definition is_dir :: "filesystem \<Rightarrow> path \<Rightarrow> bool" where
  "is_dir fs p = (resolve fs p \<in> set (dirs fs))"

definition is_file :: "filesystem \<Rightarrow> path \<Rightarrow> bool" where
  "is_file fs p = (resolve fs p \<in> set (map fst (regular_files fs)))"

text \<open>\<^verbatim>\<open>p.exists()\<close>\<close>

definition exists :: "filesystem \<Rightarrow> path \<Rightarrow> bool" where
  "exists fs p = (is_dir fs p \<or> is_file fs p)"

text \<open>The names of the entries of a directory, files first.\<close>

definition listdir :: "filesystem \<Rightarrow> string list \<Rightarrow> string list" where
  "listdir fs d =
     map last (filter (\<lambda>e. e \<noteq> [] \<and> butlast e = d) (map fst (regular_files fs) @ dirs fs))"

definition ends_with :: "string \<Rightarrow> string \<Rightarrow> bool" where
  "ends_with suffix n = (length suffix \<le> length n \<and> drop (length n - length suffix) n = suffix)"

text \<open>
  \<^verbatim>\<open>p.glob("*" + suffix)\<close>, not recursive: the entries of the directory \<open>p\<close> whose name
  ends with \<open>suffix\<close>, each as \<open>p / name\<close>, so spelled the way \<open>p\<close> is. Matching is
  case-sensitive (POSIX), and \<^verbatim>\<open>*\<close> also matches the empty string and a leading dot.
\<close>

definition glob_suffix :: "filesystem \<Rightarrow> path \<Rightarrow> string \<Rightarrow> path list" where
  "glob_suffix fs p suffix =
     (if is_dir fs p
      then map (joinpath p) (filter (ends_with suffix) (listdir fs (resolve fs p)))
      else [])"

text \<open>\<^verbatim>\<open>open(p, 'r').read()\<close> and \<^verbatim>\<open>open(p, 'w').write(text)\<close>\<close>

definition read_text :: "filesystem \<Rightarrow> path \<Rightarrow> py_error + string" where
  "read_text fs p =
     (case map_of (regular_files fs) (resolve fs p) of None \<Rightarrow> Inl OSError | Some t \<Rightarrow> Inr t)"

definition write_text :: "path \<Rightarrow> string \<Rightarrow> filesystem \<Rightarrow> py_error + filesystem" where
  "write_text p text fs =
     (let f = resolve fs p
      in if f = [] \<or> f \<in> set (dirs fs) \<or> butlast f \<notin> set (dirs fs) then Inl OSError
         else Inr (fs\<lparr>regular_files := dict_set (regular_files fs) f text\<rparr>))"

text \<open>
  \<^verbatim>\<open>p.mkdir(parents=True, exist_ok=True)\<close>: creates the directory and its missing ancestors;
  fails when the path or one of its ancestors is a regular file.
\<close>

definition ancestors_and_self :: "string list \<Rightarrow> string list list" where
  "ancestors_and_self d = map (\<lambda>i. take i d) [0..<Suc (length d)]"

definition mkdir_parents :: "path \<Rightarrow> filesystem \<Rightarrow> py_error + filesystem" where
  "mkdir_parents p fs =
     (let ds = ancestors_and_self (resolve fs p)
      in if \<exists>d \<in> set ds. d \<in> set (map fst (regular_files fs)) then Inl OSError
         else Inr (fs\<lparr>dirs := dirs fs @ filter (\<lambda>d. d \<notin> set (dirs fs)) ds\<rparr>))"

text \<open>
  \<^verbatim>\<open>shutil.copy2(src, dst)\<close>: \<open>src\<close> must be a regular file; a \<open>dst\<close> that is a directory
  means the entry of that directory with the name of \<open>src\<close>; the target's directory must
  exist, and the target must be neither a directory nor \<open>src\<close> itself.
\<close>

definition copy2 :: "path \<Rightarrow> path \<Rightarrow> filesystem \<Rightarrow> py_error + filesystem" where
  "copy2 src dst fs =
     (case map_of (regular_files fs) (resolve fs src) of
        None \<Rightarrow> Inl OSError
      | Some content \<Rightarrow>
          (let d = resolve fs dst;
               target = (if d \<in> set (dirs fs) then d @ [name src] else d)
           in if target = [] \<or> target \<in> set (dirs fs) \<or> target = resolve fs src
                 \<or> butlast target \<notin> set (dirs fs)
              then Inl OSError
              else Inr (fs\<lparr>regular_files := dict_set (regular_files fs) target content\<rparr>)))"

section \<open>DatasetPreparer\<close>

text \<open>
  The preparer holds \<^verbatim>\<open>source_dir\<close> and \<^verbatim>\<open>output_dir\<close>. Of the training configuration,
  dataset preparation reads the dataset name (a plain directory name) and the three ratios.
\<close>

record preparer =
  source_dir :: path
  output_dir :: path

record training_config =
  config_dataset_name :: string
  config_train_ratio :: rat
  config_val_ratio :: rat
  config_test_ratio :: rat

subsection \<open>\<^verbatim>\<open>_create_dataset_structure\<close>\<close>

fun mkdir_all :: "path list \<Rightarrow> filesystem \<Rightarrow> py_error option \<times> filesystem" where
  "mkdir_all [] fs = (None, fs)"
| "mkdir_all (p # ps) fs =
     (case mkdir_parents p fs of Inl e \<Rightarrow> (Some e, fs) | Inr fs' \<Rightarrow> mkdir_all ps fs')"

definition split_dirs :: "path \<Rightarrow> path list" where
  "split_dirs dataset_path =
     concat (map (\<lambda>split. [joinpath (joinpath dataset_path ''images'') split,
                            joinpath (joinpath dataset_path ''labels'') split])
               [''train'', ''val'', ''test''])"

definition create_dataset_structure :: "path \<Rightarrow> filesystem \<Rightarrow> py_error option \<times> filesystem" where
  "create_dataset_structure dataset_path fs = mkdir_all (split_dirs dataset_path) fs"

subsection \<open>\<^verbatim>\<open>_collect_files\<close> and \<^verbatim>\<open>_find_label_file\<close>\<close>

definition image_extensions :: "string list" where
  "image_extensions = [''.jpg'', ''.jpeg'', ''.png'', ''.bmp'', ''.tiff'', ''.tif'']"

definition search_paths :: "path \<Rightarrow> path list" where
  "search_paths src =
     [src, joinpath src ''images'', Path False [''images''], Path False [''exports'', ''yolo''],
      Path False [''labels'']]"

primrec collect_from :: "filesystem \<Rightarrow> path list \<Rightarrow> path list \<times> path list \<Rightarrow> path list \<times> path list" where
  "collect_from fs [] found = found"
| "collect_from fs (search_path # rest) found =
     (if exists fs search_path
      then collect_from fs rest
             (fst found @ concat (map (glob_suffix fs search_path) image_extensions),
              snd found @ glob_suffix fs search_path ''.txt'')
      else collect_from fs rest found)"

text \<open>
  \<^verbatim>\<open>list(set(xs))\<close> keeps one element of every class of equal paths; the order of the result
  is not specified by Python, the model keeps the order of the last occurrences.
\<close>

definition collect_files :: "filesystem \<Rightarrow> path \<Rightarrow> path list \<times> path list" where
  "collect_files fs src =
     (let found = collect_from fs (search_paths src) ([], [])
      in (remdups (fst found), remdups (snd found)))"

primrec find_label_file :: "path \<Rightarrow> path list \<Rightarrow> path option" where
  "find_label_file image_file [] = None"
| "find_label_file image_file (label_file # rest) =
     (if stem label_file = stem image_file then Some label_file
      else find_label_file image_file rest)"

subsection \<open>\<^verbatim>\<open>_generate_dataset_statistics\<close>\<close>

text \<open>
  The entry of one split in the statistics: the values under the keys \<^verbatim>\<open>'images'\<close>,
  \<^verbatim>\<open>'labels'\<close>, \<^verbatim>\<open>'annotations'\<close> and \<^verbatim>\<open>'class_distribution'\<close>.
\<close>

record split_stats =
  stat_images :: nat
  stat_labels :: nat
  stat_annotations :: nat
  class_distribution :: "(int \<times> nat) list"

text \<open>The loop over the lines of one label file, updating \<^verbatim>\<open>class_counts\<close>.\<close>

fun count_classes :: "(int \<times> nat) list \<Rightarrow> string list \<Rightarrow> py_error + (int \<times> nat) list" where
  "count_classes class_counts [] = Inr class_counts"
| "count_classes class_counts (line # rest) =
     (case py_split (py_strip line) of
        [] \<Rightarrow> count_classes class_counts rest
      | first # _ \<Rightarrow>
          (case int_of_string first of
             Inl e \<Rightarrow> Inl e
           | Inr class_id \<Rightarrow>
               count_classes (dict_set class_counts class_id (dict_get class_counts class_id 0 + 1))
                 rest))"

text \<open>The loop over the label files of one split.\<close>

fun count_label_files ::
  "filesystem \<Rightarrow> path list \<Rightarrow> nat \<times> (int \<times> nat) list \<Rightarrow> py_error + nat \<times> (int \<times> nat) list" where
  "count_label_files fs [] counts = Inr counts"
| "count_label_files fs (label_file # rest) counts =
     (case read_text fs label_file of
        Inl e \<Rightarrow> Inl e
      | Inr text \<Rightarrow>
          (let lines = readlines text;
               total_annotations = fst counts + length lines
           in case count_classes (snd counts) lines of
                Inl e \<Rightarrow> Inl e
              | Inr class_counts \<Rightarrow> count_label_files fs rest (total_annotations, class_counts)))"

definition split_statistics :: "filesystem \<Rightarrow> path \<Rightarrow> string \<Rightarrow> py_error + split_stats" where
  "split_statistics fs dataset_path split =
     (let images_dir = joinpath (joinpath dataset_path ''images'') split;
          labels_dir = joinpath (joinpath dataset_path ''labels'') split;
          image_count = length (glob_suffix fs images_dir []);
          label_count = length (glob_suffix fs labels_dir ''.txt'')
      in case count_label_files fs (glob_suffix fs labels_dir ''.txt'') (0, []) of
           Inl e \<Rightarrow> Inl e
         | Inr counts \<Rightarrow>
             Inr \<lparr>stat_images = image_count, stat_labels = label_count,
                  stat_annotations = fst counts, class_distribution = snd counts\<rparr>)"

fun statistics_of_splits ::
  "filesystem \<Rightarrow> path \<Rightarrow> string list \<Rightarrow> py_error + (string \<times> split_stats) list" where
  "statistics_of_splits fs dataset_path [] = Inr []"
| "statistics_of_splits fs dataset_path (split # rest) =
     (case split_statistics fs dataset_path split of
        Inl e \<Rightarrow> Inl e
      | Inr st \<Rightarrow>
          (case statistics_of_splits fs dataset_path rest of
             Inl e \<Rightarrow> Inl e
           | Inr sts \<Rightarrow> Inr ((split, st) # sts)))"

text \<open>
  What the preparer takes from outside the pipeline: the raw draws of the random generator,
  the enabled class names of the class registry (\<open>None\<close> when the registry cannot be
  loaded), the four default class names of the source, the time, and the rendering of the
  two documents by \<^verbatim>\<open>yaml.dump\<close> and \<^verbatim>\<open>json.dump\<close>.
\<close>

record collaborators =
  random_draws :: "nat \<Rightarrow> nat"
  registry_classes :: "string list option"
  default_classes :: "string list"
  now :: string
  dump_yaml :: "string list \<Rightarrow> string list \<Rightarrow> string"
  dump_statistics :: "string \<Rightarrow> string list \<Rightarrow> (string \<times> split_stats) list \<Rightarrow> string"

definition generate_dataset_statistics ::
  "collaborators \<Rightarrow> path \<Rightarrow> filesystem \<Rightarrow> py_error option \<times> filesystem" where
  "generate_dataset_statistics env dataset_path fs =
     (case statistics_of_splits fs dataset_path [''train'', ''val'', ''test''] of
        Inl e \<Rightarrow> (Some e, fs)
      | Inr stats \<Rightarrow>
          (case write_text (joinpath dataset_path ''dataset_statistics.json'')
                  (dump_statistics env (now env) (parts dataset_path) stats) fs of
             Inl e \<Rightarrow> (Some e, fs)
           | Inr fs' \<Rightarrow> (None, fs')))"

subsection \<open>\<^verbatim>\<open>_load_vehicle_classes\<close> and \<^verbatim>\<open>_create_dataset_yaml\<close>\<close>

fun first_classes_file :: "filesystem \<Rightarrow> path list \<Rightarrow> (py_error + string list) option" where
  "first_classes_file fs [] = None"
| "first_classes_file fs (classes_file # rest) =
     (if exists fs classes_file
      then Some (case read_text fs classes_file of
                   Inl e \<Rightarrow> Inl e
                 | Inr text \<Rightarrow>
                     Inr (filter (\<lambda>l. l \<noteq> []) (map py_strip (readlines text))))
      else first_classes_file fs rest)"

definition load_vehicle_classes :: "collaborators \<Rightarrow> preparer \<Rightarrow> filesystem \<Rightarrow> py_error + string list" where
  "load_vehicle_classes env prep fs =
     (case registry_classes env of
        Some classes \<Rightarrow> Inr classes
      | None \<Rightarrow>
          (case first_classes_file fs
                  [Path False [''classes.txt''], Path False [''exports'', ''yolo'', ''classes.txt''],
                   joinpath (source_dir prep) ''classes.txt''] of
             Some r \<Rightarrow> r
           | None \<Rightarrow> Inr (default_classes env)))"

definition create_dataset_yaml ::
  "collaborators \<Rightarrow> preparer \<Rightarrow> path \<Rightarrow> filesystem \<Rightarrow> py_error option \<times> filesystem" where
  "create_dataset_yaml env prep dataset_path fs =
     (case load_vehicle_classes env prep fs of
        Inl e \<Rightarrow> (Some e, fs)
      | Inr classes \<Rightarrow>
          (case write_text (joinpath dataset_path ''dataset.yaml'')
                  (dump_yaml env (resolve fs dataset_path) classes) fs of
             Inl e \<Rightarrow> (Some e, fs)
           | Inr fs' \<Rightarrow> (None, fs')))"

subsection \<open>\<^verbatim>\<open>prepare_yolo_dataset\<close>\<close>

text \<open>
  The state of a preparation run: the file system, the list objects and random generator,
  and the percentages passed to \<^verbatim>\<open>progress_callback\<close> so far.
\<close>

record world =
  fsys :: filesystem
  mem :: "path pystate"
  reported :: "int list"

text \<open>The copy loop over the files of one split; \<open>processed\<close> counts across the splits.\<close>

fun copy_split ::
  "path \<Rightarrow> path list \<Rightarrow> nat \<Rightarrow> string \<Rightarrow> path list \<Rightarrow> nat \<times> world
     \<Rightarrow> py_error option \<times> nat \<times> world" where
  "copy_split dataset_path label_files total_files split_name [] st = (None, st)"
| "copy_split dataset_path label_files total_files split_name (img_file # rest) st =
     (let processed = fst st; w = snd st;
          img_dst = joinpath (joinpath (joinpath dataset_path ''images'') split_name) (name img_file)
      in case copy2 img_file img_dst (fsys w) of
           Inl e \<Rightarrow> (Some e, st)
         | Inr fs1 \<Rightarrow>
             (case (case find_label_file img_file label_files of
                      None \<Rightarrow> Inr fs1
                    | Some label_file \<Rightarrow>
                        copy2 label_file
                          (joinpath (joinpath (joinpath dataset_path ''labels'') split_name)
                             (stem img_file @ ''.txt''))
                          fs1) of
                Inl e \<Rightarrow> (Some e, processed, w\<lparr>fsys := fs1\<rparr>)
              | Inr fs2 \<Rightarrow>
                  (case truediv_int (int (processed + 1)) (int total_files) of
                     Inl e \<Rightarrow> (Some e, processed + 1, w\<lparr>fsys := fs2\<rparr>)
                   | Inr r \<Rightarrow>
                       copy_split dataset_path label_files total_files split_name rest
                         (processed + 1,
                          w\<lparr>fsys := fs2,
                            reported := reported w @ [int_of_float (fmul r (float_of_int 100))]\<rparr>))))"

fun copy_splits ::
  "path \<Rightarrow> path list \<Rightarrow> nat \<Rightarrow> (string \<times> path list) list \<Rightarrow> nat \<times> world
     \<Rightarrow> py_error option \<times> nat \<times> world" where
  "copy_splits dataset_path label_files total_files [] st = (None, st)"
| "copy_splits dataset_path label_files total_files (split # rest) st =
     (case copy_split dataset_path label_files total_files (fst split) (snd split) st of
        (Some e, st') \<Rightarrow> (Some e, st')
      | (None, st') \<Rightarrow> copy_splits dataset_path label_files total_files rest st')"

definition prepare_yolo_dataset ::
  "collaborators \<Rightarrow> preparer \<Rightarrow> training_config \<Rightarrow> world \<Rightarrow> (py_error + path) \<times> world" where
  "prepare_yolo_dataset env prep config w =
     (let dataset_path = joinpath (output_dir prep) (config_dataset_name config)
      in case create_dataset_structure dataset_path (fsys w) of
           (Some e, fs1) \<Rightarrow> (Inl e, w\<lparr>fsys := fs1\<rparr>)
         | (None, fs1) \<Rightarrow>
             (let (image_files, label_files) = collect_files fs1 (source_dir prep);
                  w1 = w\<lparr>fsys := fs1\<rparr>
              in if image_files = [] then (Inl (ValueError NoImageFiles), w1)
                 else
                   (let (files, m1) = alloc image_files (mem w1)
                    in case split_dataset (random_draws env) files (config_train_ratio config)
                              (config_val_ratio config) (config_test_ratio config) m1 of
                         (Inl e, m2) \<Rightarrow> (Inl e, w1\<lparr>mem := m2\<rparr>)
                       | (Inr (train_files, val_files, test_files), m2) \<Rightarrow>
                           (let total_files =
                                  length train_files + length val_files + length test_files
                            in case copy_splits dataset_path label_files total_files
                                      [(''train'', train_files), (''val'', val_files),
                                       (''test'', test_files)]
                                      (0, w1\<lparr>mem := m2\<rparr>) of
                                 (Some e, st) \<Rightarrow> (Inl e, snd st)
                               | (None, st) \<Rightarrow>
                                   (let w2 = snd st
                                    in case create_dataset_yaml env prep dataset_path (fsys w2) of
                                         (Some e, fs3) \<Rightarrow> (Inl e, w2\<lparr>fsys := fs3\<rparr>)
                                       | (None, fs3) \<Rightarrow>
                                           (case generate_dataset_statistics env dataset_path fs3 of
                                              (Some e, fs4) \<Rightarrow> (Inl e, w2\<lparr>fsys := fs4\<rparr>)
                                            | (None, fs4) \<Rightarrow>
                                                (Inr (joinpath dataset_path ''dataset.yaml''),
                                                 w2\<lparr>fsys := fs4\<rparr>)))))))"

section \<open>YoloExporter\<close>

text \<open>
  A \<^verbatim>\<open>QRect\<close> by its \<^verbatim>\<open>x()\<close>, \<^verbatim>\<open>y()\<close>, \<^verbatim>\<open>width()\<close> and \<^verbatim>\<open>height()\<close>, and an annotation by
  the two entries \<^verbatim>\<open>export_annotations\<close> reads, \<^verbatim>\<open>'rect'\<close> and \<^verbatim>\<open>'class_id'\<close>.
\<close>

record qrect =
  qx :: int
  qy :: int
  qwidth :: int
  qheight :: int

record annotation =
  rect :: qrect
  class_id :: int

text \<open>
  A line of the label file, \<^verbatim>\<open>class_id x_center y_center width height\<close>, by the class id
  and the four numbers that the text of the line denotes. \<open>fmt10\<close> is the number printed by
  the format \<^verbatim>\<open>.10f\<close>: the float rounded to ten decimal places, ties to even.
\<close>

record annotation_line =
  line_class_id :: int
  x_center :: rat
  y_center :: rat
  width :: rat
  height :: rat

definition fmt10 :: "rat \<Rightarrow> rat" where
  "fmt10 x = of_int (round_half_even (x * 10 ^ 10)) / 10 ^ 10"

text \<open>The body of the loop of \<^verbatim>\<open>export_annotations\<close> up to the line it writes.\<close>

definition encode_annotation :: "int \<Rightarrow> int \<Rightarrow> annotation \<Rightarrow> py_error + annotation_line" where
  "encode_annotation img_w img_h a =
     (let x1 = qx (rect a); y1 = qy (rect a);
          x2 = x1 + qwidth (rect a); y2 = y1 + qheight (rect a)
      in case truediv_int (x1 + x2) 2 of Inl e \<Rightarrow> Inl e | Inr sx \<Rightarrow>
         (case fdiv sx (float_of_int img_w) of Inl e \<Rightarrow> Inl e | Inr xc \<Rightarrow>
         (case truediv_int (y1 + y2) 2 of Inl e \<Rightarrow> Inl e | Inr sy \<Rightarrow>
         (case fdiv sy (float_of_int img_h) of Inl e \<Rightarrow> Inl e | Inr yc \<Rightarrow>
         (case truediv_int \<bar>x2 - x1\<bar> img_w of Inl e \<Rightarrow> Inl e | Inr wd \<Rightarrow>
         (case truediv_int \<bar>y2 - y1\<bar> img_h of Inl e \<Rightarrow> Inl e | Inr ht \<Rightarrow>
            Inr \<lparr>line_class_id = class_id a, x_center = fmt10 xc, y_center = fmt10 yc,
                 width = fmt10 wd, height = fmt10 ht\<rparr>))))))"

fun write_annotations ::
  "int \<Rightarrow> int \<Rightarrow> annotation list \<Rightarrow> annotation_line list \<Rightarrow> py_error option \<times> annotation_line list" where
  "write_annotations img_w img_h [] written = (None, written)"
| "write_annotations img_w img_h (a # rest) written =
     (case encode_annotation img_w img_h a of
        Inl e \<Rightarrow> (Some e, written)
      | Inr l \<Rightarrow> write_annotations img_w img_h rest (written @ [l]))"

text \<open>
  The image as \<^verbatim>\<open>QPixmap(image_path)\<close> loads it, by its \<^verbatim>\<open>width()\<close> and \<^verbatim>\<open>height()\<close>.
  Qt never reports a negative size; an image that cannot be loaded gives the null pixmap,
  of width and height \<open>0\<close>.
\<close>

record qpixmap =
  pixmap_width :: nat
  pixmap_height :: nat

text \<open>
  \<^verbatim>\<open>export_annotations\<close>, given the pixmap loaded from \<^verbatim>\<open>image_path\<close>: the exception raised,
  whether the output directory was made, and the lines of the label file (\<open>None\<close> when the
  file was not opened). Opening the file for writing empties it.
\<close>

record export_result =
  raised :: "py_error option"
  output_dir_made :: bool
  label_file :: "annotation_line list option"

definition export_annotations :: "qpixmap \<Rightarrow> annotation list \<Rightarrow> export_result" where
  "export_annotations img annotations =
     (if annotations = []
      then \<lparr>raised = Some (ValueError NoAnnotations), output_dir_made = False, label_file = None\<rparr>
      else
        (let img_w = int (pixmap_width img); img_h = int (pixmap_height img);
             r = write_annotations img_w img_h annotations []
         in \<lparr>raised = fst r, output_dir_made = True, label_file = Some (snd r)\<rparr>))"

text \<open>
  Modelled from the spec: \<^verbatim>\<open>decode(AnnotationLine, image_width, image_height)\<close>, which the
  repository does not contain. The spec says it is the inverse of encode, which computes the
  centre as the midpoint of the corners and the size as the span, both divided by the image
  dimensions. So decode multiplies by the image dimensions and takes the corner half a size
  before the centre; the result is the box as \<open>(x, y, width, height)\<close>, in exact arithmetic.
\<close>

definition decode :: "annotation_line \<Rightarrow> int \<Rightarrow> int \<Rightarrow> rat \<times> rat \<times> rat \<times> rat" where
  "decode l image_width image_height =
     ((x_center l - width l / 2) * of_int image_width,
      (y_center l - height l / 2) * of_int image_height,
      width l * of_int image_width,
      height l * of_int image_height)"

section \<open>Example inputs\<close>

text \<open>
  A working directory \<^verbatim>\<open>/w\<close> with one image and its label file in \<^verbatim>\<open>/w/images\<close>.
\<close>

abbreviation example_fs :: filesystem where
  "example_fs \<equiv>
     \<lparr>cwd = [''w''],
      dirs = [[], [''w''], [''w'', ''images'']],
      regular_files = [([''w'', ''images'', ''a.jpg''], ''JPEG''),
               ([''w'', ''images'', ''a.txt''], ''0 0.5 0.5 0.1 0.1'')]\<rparr>"

text \<open>A working directory \<^verbatim>\<open>/w\<close> with no file at all.\<close>

abbreviation empty_fs :: filesystem where
  "empty_fs \<equiv> \<lparr>cwd = [''w''], dirs = [[], [''w'']], regular_files = []\<rparr>"

text \<open>
  A prepared dataset \<^verbatim>\<open>/w/d\<close> whose train split holds one image and one label file: one
  annotation line followed by an empty line.
\<close>

abbreviation blank_line_fs :: filesystem where
  "blank_line_fs \<equiv>
     \<lparr>cwd = [''w''],
      dirs = [[], [''w''], [''w'', ''d''], [''w'', ''d'', ''images''],
              [''w'', ''d'', ''images'', ''train''], [''w'', ''d'', ''labels''],
              [''w'', ''d'', ''labels'', ''train'']],
      regular_files = [([''w'', ''d'', ''images'', ''train'', ''a.jpg''], ''JPEG''),
               ([''w'', ''d'', ''labels'', ''train'', ''a.txt''],
                ''0 0.5 0.5 0.1 0.1'' @ [CHR 0x0A, CHR 0x0A])]\<rparr>"

text \<open>The training dialog's preparer, \<^verbatim>\<open>DatasetPreparer(source_dir=".", output_dir="datasets")\<close>.\<close>

abbreviation dialog_preparer :: preparer where
  "dialog_preparer \<equiv> \<lparr>source_dir = Path False [], output_dir = Path False [''datasets'']\<rparr>"

abbreviation example_config :: training_config where
  "example_config \<equiv>
     \<lparr>config_dataset_name = ''vehicle_dataset'', config_train_ratio = 1 / 2,
      config_val_ratio = 1 / 4, config_test_ratio = 1 / 4\<rparr>"

abbreviation example_env :: collaborators where
  "example_env \<equiv>
     \<lparr>random_draws = (\<lambda>i. i), registry_classes = None, default_classes = [''car''], now = ''t'',
      dump_yaml = (\<lambda>p cs. concat cs), dump_statistics = (\<lambda>t p st. t)\<rparr>"

abbreviation example_annotation :: annotation where
  "example_annotation \<equiv> \<lparr>rect = \<lparr>qx = 10, qy = 10, qwidth = 20, qheight = 20\<rparr>, class_id = 0\<rparr>"

section \<open>Theorems\<close>

lemma round_half_even_of_int: "round_half_even (of_int n) = n"
  by (simp add: round_half_even_def)

lemma round_half_even_error: "\<bar>of_int (round_half_even q) - q\<bar> \<le> 1 / 2"
proof -
  have "of_int \<lfloor>q\<rfloor> \<le> q" "q < of_int \<lfloor>q\<rfloor> + 1"
    by linarith+
  then show ?thesis
    unfolding round_half_even_def Let_def
    by (simp add: abs_if) linarith
qed

lemma two_powi_pos: "0 < (2::rat) powi e"
  by (simp add: zero_less_power_int)

lemma two_powi_Suc: "(2::rat) powi (e + 1) = 2 * 2 powi e"
  by (simp add: power_int_add)

lemma two_powi_less: "e < e' \<Longrightarrow> 2 * (2::rat) powi e \<le> 2 powi e'"
proof -
  assume "e < e'"
  then have "e + 1 \<le> e'" by simp
  then have "(2::rat) powi (e + 1) \<le> 2 powi e'"
    by (intro power_int_increasing) simp_all
  then show ?thesis by (simp add: two_powi_Suc)
qed

lemma expo_bounds:
  assumes "q \<noteq> 0"
  shows "2 ^ 52 * 2 powi expo q \<le> \<bar>q\<bar>" and "\<bar>q\<bar> < 2 ^ 53 * 2 powi expo q"
proof -
  obtain a b where ab: "quotient_of \<bar>q\<bar> = (a, b)"
    by (cases "quotient_of \<bar>q\<bar>")
  have b: "0 < b" using ab by (rule quotient_of_denom_pos)
  have q: "\<bar>q\<bar> = of_int a / of_int b"
    using ab by (metis quotient_of_div)
  have a: "0 < a"
  proof -
    have "0 < \<bar>q\<bar>" using assms by simp
    then have "0 < (of_int a :: rat) / of_int b" by (simp add: q)
    then show ?thesis using b by (simp add: zero_less_divide_iff)
  qed
  define la where "la = bitlen a"
  define lb where "lb = bitlen b"
  define e where "e = la - lb - 53"
  have la: "2 ^ nat (la - 1) \<le> a" "a < 2 ^ nat la"
    using bitlen_bounds [OF a] by (simp_all add: la_def)
  have lb: "2 ^ nat (lb - 1) \<le> b" "b < 2 ^ nat lb"
    using bitlen_bounds [OF b] by (simp_all add: lb_def)
  have la1: "1 \<le> la" using a by (simp add: la_def bitlen_alt_def)
  have lb1: "1 \<le> lb" using b by (simp add: lb_def bitlen_alt_def)
  have ra_lo: "(2::rat) powi (la - 1) \<le> of_int a"
  proof -
    have "(of_int (2 ^ nat (la - 1)) :: rat) \<le> of_int a"
      using la(1) by (simp only: of_int_le_iff)
    then show ?thesis using la1 by (simp add: power_int_def)
  qed
  have ra_hi: "of_int a < (2::rat) powi la"
  proof -
    have "(of_int a :: rat) < of_int (2 ^ nat la)"
      using la(2) by (simp only: of_int_less_iff)
    then show ?thesis using la1 by (simp add: power_int_def)
  qed
  have rb_lo: "(2::rat) powi (lb - 1) \<le> of_int b"
  proof -
    have "(of_int (2 ^ nat (lb - 1)) :: rat) \<le> of_int b"
      using lb(1) by (simp only: of_int_le_iff)
    then show ?thesis using lb1 by (simp add: power_int_def)
  qed
  have rb_hi: "of_int b < (2::rat) powi lb"
  proof -
    have "(of_int b :: rat) < of_int (2 ^ nat lb)"
      using lb(2) by (simp only: of_int_less_iff)
    then show ?thesis using lb1 by (simp add: power_int_def)
  qed
  have bpos: "(0::rat) < of_int b" using b by simp
  have lo: "2 ^ 52 * 2 powi e < \<bar>q\<bar>"
  proof -
    have "2 ^ 52 * (2::rat) powi e = 2 powi (la - 1) / 2 powi lb"
      by (simp add: e_def power_int_diff power_int_add field_simps)
    also have "\<dots> \<le> of_int a / 2 powi lb"
      using ra_lo by (simp add: divide_right_mono two_powi_pos less_imp_le)
    also have "\<dots> < of_int a / of_int b"
      using rb_hi bpos a by (simp add: divide_strict_left_mono two_powi_pos)
    finally show ?thesis by (simp add: q)
  qed
  have hi: "\<bar>q\<bar> < 2 ^ 54 * 2 powi e"
  proof -
    have "of_int a / of_int b < (2::rat) powi la / of_int b"
      using ra_hi bpos by (simp add: divide_strict_right_mono)
    also have "\<dots> \<le> 2 powi la / 2 powi (lb - 1)"
      using rb_lo two_powi_pos [of "lb - 1"] two_powi_pos [of la] bpos
      by (intro divide_left_mono) (simp_all add: less_imp_le)
    also have "\<dots> = 2 ^ 54 * 2 powi e"
      by (simp add: e_def power_int_diff power_int_add field_simps)
    finally show ?thesis by (simp add: q)
  qed
  have ex: "expo q = (if 2 ^ 53 \<le> \<bar>q\<bar> / 2 powi e then e + 1 else e)"
    by (simp add: expo_def ab Let_def e_def la_def lb_def)
  show "2 ^ 52 * 2 powi expo q \<le> \<bar>q\<bar>"
    using lo two_powi_pos [of e]
    by (simp add: ex two_powi_Suc pos_le_divide_eq less_imp_le)
  show "\<bar>q\<bar> < 2 ^ 53 * 2 powi expo q"
    using hi two_powi_pos [of e]
    by (simp add: ex two_powi_Suc pos_le_divide_eq not_le)
qed

lemma expo_unique:
  assumes lo: "2 ^ 52 * 2 powi e \<le> \<bar>q\<bar>" and hi: "\<bar>q\<bar> < 2 ^ 53 * 2 powi e"
  shows "expo q = e"
proof -
  have "0 < 2 ^ 52 * (2::rat) powi e"
    by (simp add: two_powi_pos)
  with lo have "0 < \<bar>q\<bar>" by linarith
  then have q: "q \<noteq> 0" by simp
  note b = expo_bounds [OF q]
  have "\<not> expo q < e"
  proof
    assume "expo q < e"
    then have "2 * (2::rat) powi expo q \<le> 2 powi e" by (rule two_powi_less)
    then have "2 ^ 53 * (2::rat) powi expo q \<le> 2 ^ 52 * 2 powi e" by simp
    with lo b(2) show False by linarith
  qed
  moreover have "\<not> e < expo q"
  proof
    assume "e < expo q"
    then have "2 * (2::rat) powi e \<le> 2 powi expo q" by (rule two_powi_less)
    then have "2 ^ 53 * (2::rat) powi e \<le> 2 ^ 52 * 2 powi expo q" by simp
    with hi b(1) show False by linarith
  qed
  ultimately show ?thesis by linarith
qed

lemma fl_eqI:
  assumes "2 ^ 52 * 2 powi e \<le> \<bar>q\<bar>" and "\<bar>q\<bar> < 2 ^ 53 * 2 powi e"
    and "round_half_even (q / 2 powi e) = m"
  shows "fl q = of_int m * 2 powi e"
proof -
  have "0 < 2 ^ 52 * (2::rat) powi e"
    by (simp add: two_powi_pos)
  with assms(1) have "0 < \<bar>q\<bar>" by linarith
  then have "q \<noteq> 0" by simp
  then show ?thesis
    by (simp add: fl_def expo_unique [OF assms(1,2)] assms(3))
qed

lemma fl_error:
  "\<bar>fl q - q\<bar> \<le> \<bar>q\<bar> / 2 ^ 53"
proof (cases "q = 0")
  case True
  then show ?thesis by (simp add: fl_def)
next
  case False
  define p where "p = (2::rat) powi expo q"
  have p: "0 < p" by (simp add: p_def two_powi_pos)
  have lo: "2 ^ 52 * p \<le> \<bar>q\<bar>"
    using expo_bounds(1) [OF False] by (simp add: p_def)
  have "fl q - q = (of_int (round_half_even (q / p)) - q / p) * p"
    using p False by (simp add: fl_def p_def [symmetric] field_simps)
  then have "\<bar>fl q - q\<bar> = \<bar>of_int (round_half_even (q / p)) - q / p\<bar> * p"
    using p by (simp add: abs_mult)
  also have "\<dots> \<le> 1 / 2 * p"
    using round_half_even_error [of "q / p"] p by (intro mult_right_mono) simp_all
  also have "\<dots> \<le> \<bar>q\<bar> / 2 ^ 53"
    using lo by simp
  finally show ?thesis .
qed

lemma round_half_even_nonneg: "0 \<le> q \<Longrightarrow> 0 \<le> round_half_even q"
  by (auto simp: round_half_even_def Let_def)

lemma fl_nonneg: "0 \<le> q \<Longrightarrow> 0 \<le> fl q"
  unfolding fl_def using two_powi_pos [of "expo q"]
  by (auto intro!: mult_nonneg_nonneg round_half_even_nonneg divide_nonneg_pos simp: less_imp_le)

lemma fl_exact:
  assumes m: "\<bar>m\<bar> < 2 ^ 53"
  shows "fl (of_int m * 2 powi e) = of_int m * 2 powi e"
proof (cases "m = 0")
  case True
  then show ?thesis by (simp add: fl_def)
next
  case False
  define l where "l = bitlen \<bar>m\<bar>"
  have pos: "0 < \<bar>m\<bar>" using False by simp
  have l1: "1 \<le> l" using pos by (simp add: l_def bitlen_alt_def)
  have bl: "2 ^ nat (l - 1) \<le> \<bar>m\<bar>" "\<bar>m\<bar> < 2 ^ nat l"
    using bitlen_bounds [OF pos] by (simp_all add: l_def)
  have l53: "l \<le> 53"
  proof (rule ccontr)
    assume "\<not> l \<le> 53"
    then have "53 \<le> nat (l - 1)" by simp
    then have "(2::int) ^ 53 \<le> 2 ^ nat (l - 1)"
      by (intro power_increasing) simp_all
    with bl(1) m show False by linarith
  qed
  define k where "k = nat (53 - l)"
  have kl: "nat (l - 1) + k = 52" "nat l + k = 53"
    using l1 l53 by (simp_all add: k_def)
  define n where "n = m * 2 ^ k"
  have n_lo: "2 ^ 52 \<le> \<bar>n\<bar>"
  proof -
    have "(2::int) ^ 52 = 2 ^ nat (l - 1) * 2 ^ k"
      by (simp add: power_add [symmetric] kl)
    also have "\<dots> \<le> \<bar>m\<bar> * 2 ^ k"
      using bl(1) by (intro mult_right_mono) simp_all
    finally show ?thesis by (simp add: n_def abs_mult)
  qed
  have n_hi: "\<bar>n\<bar> < 2 ^ 53"
  proof -
    have "\<bar>m\<bar> * 2 ^ k < 2 ^ nat l * (2::int) ^ k"
      using bl(2) by (intro mult_strict_right_mono) simp_all
    also have "\<dots> = 2 ^ 53"
      by (simp add: power_add [symmetric] kl)
    finally show ?thesis by (simp add: n_def abs_mult)
  qed
  define q where "q = of_int m * (2::rat) powi e"
  have scale: "(2::rat) powi e = 2 ^ k * 2 powi (e - int k)"
    by (simp add: power_int_diff)
  have qn: "q = of_int n * 2 powi (e - int k)"
    by (simp add: q_def n_def scale)
  have p: "0 < (2::rat) powi (e - int k)" by (rule two_powi_pos)
  have absq: "\<bar>q\<bar> = of_int \<bar>n\<bar> * 2 powi (e - int k)"
    using p by (simp add: qn abs_mult)
  have lo: "2 ^ 52 * 2 powi (e - int k) \<le> \<bar>q\<bar>"
  proof -
    have "(of_int (2 ^ 52) :: rat) \<le> of_int \<bar>n\<bar>"
      using n_lo by (simp only: of_int_le_iff)
    then show ?thesis
      unfolding absq using p by (intro mult_right_mono) simp_all
  qed
  have hi: "\<bar>q\<bar> < 2 ^ 53 * 2 powi (e - int k)"
  proof -
    have "(of_int \<bar>n\<bar> :: rat) < of_int (2 ^ 53)"
      using n_hi by (simp only: of_int_less_iff)
    then show ?thesis
      unfolding absq using p by (intro mult_strict_right_mono) simp_all
  qed
  have "q / 2 powi (e - int k) = of_int n"
    using p by (simp add: qn)
  then have "round_half_even (q / 2 powi (e - int k)) = n"
    by (simp add: round_half_even_of_int)
  from fl_eqI [OF lo hi this] show ?thesis
    by (simp add: qn [symmetric]) (simp add: q_def)
qed

lemma fl_of_int: "\<bar>m\<bar> < 2 ^ 53 \<Longrightarrow> fl (of_int m) = of_int m"
  using fl_exact [of m 0] by simp

lemma fl_zero: "fl 0 = 0"
  by (simp add: fl_def)

lemma round_half_even_eqI:
  assumes "\<bar>q - of_int m\<bar> < 1 / 2"
  shows "round_half_even q = m"
proof (cases "of_int m \<le> q")
  case True
  then have "\<lfloor>q\<rfloor> = m"
    using assms by (intro floor_unique) (simp_all add: abs_if split: if_splits)
  then show ?thesis
    using assms True by (simp add: round_half_even_def Let_def abs_if)
next
  case False
  then have "\<lfloor>q\<rfloor> = m - 1"
    using assms by (intro floor_unique) (simp_all add: abs_if split: if_splits)
  then show ?thesis
    using assms False by (simp add: round_half_even_def Let_def abs_if)
qed

lemma fl_cert:
  assumes "2 ^ 52 * 2 powi e \<le> \<bar>q\<bar>" and "\<bar>q\<bar> < 2 ^ 53 * 2 powi e"
    and "\<bar>q / 2 powi e - of_int m\<bar> < 1 / 2"
  shows "fl q = of_int m * 2 powi e"
  using assms(1,2) by (rule fl_eqI) (rule round_half_even_eqI [OF assms(3)])

lemma count_nonneg: "0 \<le> r \<Longrightarrow> 0 \<le> int_of_float (fmul (float_of_int (int n)) r)"
  by (simp add: int_of_float_def fmul_def float_of_int_def fl_nonneg)

lemma shuffle_from_mset:
  "k < length xs \<or> k = 0 \<Longrightarrow> mset (fst (shuffle_from draws k xs pos)) = mset xs"
proof (induction k arbitrary: xs pos)
  case 0
  then show ?case by simp
next
  case (Suc k)
  then have i: "Suc k < length xs" by simp
  have "draws pos mod (Suc k + 1) < Suc k + 1"
    by (rule mod_less_divisor) simp
  with i have j: "draws pos mod (Suc k + 1) < length xs"
    by linarith
  let ?ys = "xs[Suc k := xs ! (draws pos mod (Suc k + 1)), draws pos mod (Suc k + 1) := xs ! Suc k]"
  have "mset ?ys = mset xs"
    using mset_swap [OF j i] .
  moreover have "k < length ?ys \<or> k = 0"
    using i by simp
  ultimately show ?case
    using Suc.IH [of ?ys "Suc pos"] by (simp add: Let_def)
qed

lemma shuffle_from_pos: "snd (shuffle_from draws k xs pos) = pos + k"
  by (induction k arbitrary: xs pos) (simp_all add: Let_def)

lemma py_slice_partition:
  assumes "0 \<le> a" "0 \<le> b"
  shows "py_slice xs None (Some a) @ py_slice xs (Some a) (Some (a + b))
           @ py_slice xs (Some (a + b)) None = xs"
proof -
  define m where "m = min (length xs) (nat a)"
  define k where "k = min (length xs) (nat (a + b))"
  have mk: "m \<le> k" using assms by (simp add: m_def k_def)
  have 1: "py_slice xs None (Some a) = take m xs"
    using assms by (simp add: py_slice_def slice_index_def m_def Let_def)
  have 2: "py_slice xs (Some a) (Some (a + b)) = take (k - m) (drop m xs)"
    using assms by (simp add: py_slice_def slice_index_def m_def k_def Let_def)
  have 3: "py_slice xs (Some (a + b)) None = drop k xs"
    using assms by (simp add: py_slice_def slice_index_def k_def Let_def)
  have "drop k xs = drop (k - m) (drop m xs)"
    using mk by simp
  then have "take (k - m) (drop m xs) @ drop k xs = drop m xs"
    by (simp only: append_take_drop_id)
  then show ?thesis
    by (simp add: 1 2 3)
qed

lemma shuffle_from_length:
  "k < length xs \<or> k = 0 \<Longrightarrow> length (fst (shuffle_from draws k xs pos)) = length xs"
  using shuffle_from_mset [of k xs draws pos] by (metis size_mset)

lemma shuffled_mset: "mset (shuffled draws xs pos) = mset xs"
  unfolding shuffled_def by (rule shuffle_from_mset) (cases xs; simp)

lemma shuffled_length: "length (shuffled draws xs pos) = length xs"
  using shuffled_mset [of draws xs pos] by (metis size_mset)

lemma random_shuffle_copy:
  "random_shuffle draws (length (heap s)) (snd (list_copy r s)) =
     \<lparr>heap = heap s @ [shuffled draws (heap s ! r) (rng_pos s)],
      rng_pos = rng_pos s + (length (heap s ! r) - 1)\<rparr>"
proof -
  obtain ys p where sh: "shuffle_from draws (length (heap s ! r) - 1) (heap s ! r) (rng_pos s) = (ys, p)"
    by (cases "shuffle_from draws (length (heap s ! r) - 1) (heap s ! r) (rng_pos s)")
  have ys: "ys = shuffled draws (heap s ! r) (rng_pos s)"
    using sh by (simp add: shuffled_def)
  have p: "p = rng_pos s + (length (heap s ! r) - 1)"
    using shuffle_from_pos [of draws "length (heap s ! r) - 1" "heap s ! r" "rng_pos s"] sh by simp
  show ?thesis
    using sh ys p by (simp add: random_shuffle_def list_copy_def alloc_def)
qed

lemma split_dataset_accept:
  assumes tol: "\<not> float_lit (1 / 100) < \<bar>fsub (fadd (fadd tr vr) te) (float_lit 1)\<bar>"
  shows "split_dataset draws files tr vr te s =
    (let xs = shuffled draws (heap s ! files) (rng_pos s);
         train_count = int_of_float (fmul (float_of_int (int (length xs))) tr);
         val_count = int_of_float (fmul (float_of_int (int (length xs))) vr)
     in (Inr (py_slice xs None (Some train_count),
              py_slice xs (Some train_count) (Some (train_count + val_count)),
              py_slice xs (Some (train_count + val_count)) None),
         \<lparr>heap = heap s @ [xs], rng_pos = rng_pos s + (length (heap s ! files) - 1)\<rparr>))"
proof -
  have lc: "list_copy files s = (length (heap s), snd (list_copy files s))"
    by (simp add: list_copy_def alloc_def)
  show ?thesis
    unfolding split_dataset_def Let_def
    apply (simp only: tol if_False)
    apply (subst lc)
    apply (simp only: prod.case random_shuffle_copy)
    apply simp
    done
qed

lemma split_dataset_reject:
  assumes "float_lit (1 / 100) < \<bar>fsub (fadd (fadd tr vr) te) (float_lit 1)\<bar>"
  shows "split_dataset draws files tr vr te s =
           (Inl (ValueError (RatioSum (fadd (fadd tr vr) te))), s)"
  using assms by (simp add: split_dataset_def Let_def)

lemma py_slice_lengths:
  assumes "0 \<le> a" "0 \<le> b"
  shows "length (py_slice xs None (Some a)) = min (length xs) (nat a)"
    and "length (py_slice xs (Some a) (Some (a + b))) =
           min (length xs - min (length xs) (nat a)) (nat b)"
    and "length (py_slice xs (Some (a + b)) None) = length xs - min (length xs) (nat (a + b))"
proof -
  show "length (py_slice xs None (Some a)) = min (length xs) (nat a)"
    using assms by (simp add: py_slice_def slice_index_def Let_def)
  have "min (length xs) (nat a + nat b) - min (length xs) (nat a) =
          min (length xs - min (length xs) (nat a)) (nat b)"
    by arith
  then show "length (py_slice xs (Some a) (Some (a + b))) =
           min (length xs - min (length xs) (nat a)) (nat b)"
    using assms by (simp add: py_slice_def slice_index_def Let_def nat_add_distrib)
  show "length (py_slice xs (Some (a + b)) None) = length xs - min (length xs) (nat (a + b))"
    using assms by (simp add: py_slice_def slice_index_def Let_def)
qed

text \<open>
  C1 (amended). For every file list of length \<open>n\<close> and every ratio triple that passes the
  tolerance check and has non-negative train and validation ratios, \<^verbatim>\<open>_split_dataset\<close>
  returns three lists that are consecutive pieces of one permutation of the input: as
  multisets their union is the input, their lengths add up to \<open>n\<close>, and for distinct
  input elements they are pairwise disjoint. The train list has
  \<open>min n (int (n * train_ratio))\<close> elements, the validation list
  \<open>min (n - len train) (int (n * val_ratio))\<close>, and the test list all the rest. The
  products are float products, truncated by \<^verbatim>\<open>int\<close>.
\<close>

theorem split_dataset_partition:
  assumes tol: "\<not> float_lit (1 / 100) < \<bar>fsub (fadd (fadd train_ratio val_ratio) test_ratio) (float_lit 1)\<bar>"
    and tr: "0 \<le> train_ratio" and vr: "0 \<le> val_ratio"
  shows "\<exists>train val test s'.
      split_dataset draws files train_ratio val_ratio test_ratio s = (Inr (train, val, test), s')
    \<and> mset train + mset val + mset test = mset (heap s ! files)
    \<and> length train + length val + length test = length (heap s ! files)
    \<and> length train =
        min (length (heap s ! files))
          (nat (int_of_float (fmul (float_of_int (int (length (heap s ! files)))) train_ratio)))
    \<and> length val =
        min (length (heap s ! files) - length train)
          (nat (int_of_float (fmul (float_of_int (int (length (heap s ! files)))) val_ratio)))
    \<and> length test = length (heap s ! files) - (length train + length val)
    \<and> (distinct (heap s ! files) \<longrightarrow>
          set train \<inter> set val = {} \<and> set train \<inter> set test = {} \<and> set val \<inter> set test = {})"
proof -
  define ys where "ys = heap s ! files"
  define xs where "xs = shuffled draws ys (rng_pos s)"
  define a where "a = int_of_float (fmul (float_of_int (int (length ys))) train_ratio)"
  define b where "b = int_of_float (fmul (float_of_int (int (length ys))) val_ratio)"
  define train where "train = py_slice xs None (Some a)"
  define val where "val = py_slice xs (Some a) (Some (a + b))"
  define test where "test = py_slice xs (Some (a + b)) None"
  have len: "length xs = length ys"
    by (simp add: xs_def shuffled_length)
  have a0: "0 \<le> a" and b0: "0 \<le> b"
    by (simp_all add: a_def b_def count_nonneg tr vr)
  have run: "split_dataset draws files train_ratio val_ratio test_ratio s =
      (Inr (train, val, test),
       \<lparr>heap = heap s @ [xs], rng_pos = rng_pos s + (length ys - 1)\<rparr>)"
    using split_dataset_accept [OF tol, of draws files s]
    by (simp add: Let_def train_def val_def test_def a_def b_def xs_def ys_def shuffled_length)
  have app: "train @ val @ test = xs"
    unfolding train_def val_def test_def by (rule py_slice_partition [OF a0 b0])
  have ms: "mset train + mset val + mset test = mset ys"
  proof -
    have "mset train + mset val + mset test = mset (train @ val @ test)"
      by (simp add: ac_simps)
    then show ?thesis
      by (simp add: app xs_def shuffled_mset)
  qed
  have sum: "length train + length val + length test = length ys"
  proof -
    have "length (train @ val @ test) = length ys"
      by (simp only: app len)
    then show ?thesis by simp
  qed
  have lt: "length train = min (length ys) (nat a)"
    unfolding train_def using py_slice_lengths(1) [OF a0 b0, of xs] by (simp add: len)
  have lv: "length val = min (length ys - length train) (nat b)"
    unfolding val_def lt using py_slice_lengths(2) [OF a0 b0, of xs] by (simp add: len)
  have ltest: "length test = length ys - (length train + length val)"
    using sum by simp
  have dis: "set train \<inter> set val = {} \<and> set train \<inter> set test = {} \<and> set val \<inter> set test = {}"
    if "distinct ys"
  proof -
    have "distinct xs"
      using that shuffled_mset [of draws ys "rng_pos s"]
      by (metis xs_def mset_eq_imp_distinct_iff)
    then have "distinct (train @ val @ test)"
      by (simp only: app)
    then show ?thesis by auto
  qed
  show ?thesis
    using run ms sum lt lv ltest dis
    unfolding ys_def a_def b_def by blast
qed

text \<open>
  C4. For every ratio triple with \<open>|train_ratio + val_ratio + test_ratio - 1.0| > 0.01\<close>
  (as the code computes it, in float arithmetic) \<^verbatim>\<open>_split_dataset\<close> raises a
  \<^verbatim>\<open>ValueError\<close> whose message carries the actual sum, and the state after the call
  is the state before it: no list object is created or shuffled, no random draw is taken.
  The function has no access to the file system.
\<close>

theorem split_dataset_rejects:
  assumes "float_lit (1 / 100) < \<bar>fsub (fadd (fadd train_ratio val_ratio) test_ratio) (float_lit 1)\<bar>"
  shows "split_dataset draws files train_ratio val_ratio test_ratio s =
           (Inl (ValueError (RatioSum (fadd (fadd train_ratio val_ratio) test_ratio))), s)"
  using assms by (rule split_dataset_reject)


lemma fl_dyadic: "\<bar>m\<bar> < 2 ^ 53 \<Longrightarrow> fl (of_int m / 2 ^ k) = of_int m / 2 ^ k"
  using fl_exact [of m "- int k"] by (simp add: power_int_minus_divide)

lemma fl_0: "fl 0 = 0" by (simp add: fl_def)
lemma fl_1: "fl 1 = 1" using fl_of_int [of 1] by simp
lemma fl_2: "fl 2 = 2" using fl_of_int [of 2] by simp
lemma fl_64: "fl 64 = 64" using fl_of_int [of 64] by simp
lemma fl_65: "fl 65 = 65" using fl_of_int [of 65] by simp
lemma fl_100: "fl 100 = 100" using fl_of_int [of 100] by simp
lemma fl_128: "fl 128 = 128" using fl_of_int [of 128] by simp
lemma fl_m1: "fl (- 1) = - 1" using fl_of_int [of "- 1"] by simp
lemma fl_129_128: "fl (129 / 128) = 129 / 128" using fl_dyadic [of 129 7] by simp
lemma fl_1_128: "fl (1 / 128) = 1 / 128" using fl_dyadic [of 1 7] by simp

lemma fl_1_100: "fl (1 / 100) = 5764607523034235 / 576460752303423488"
proof -
  have "fl (1 / 100) = of_int 5764607523034235 * 2 powi (- 59)"
    by (rule fl_cert) simp_all
  then show ?thesis by simp
qed

lemma tol_cex1:
  "\<not> float_lit (1 / 100) < \<bar>fsub (fadd (fadd (1 / 2) (65 / 128)) 0) (float_lit 1)\<bar>"
  by (simp add: float_lit_def fadd_def fsub_def fl_129_128 fl_1 fl_1_128 fl_1_100)

lemma tol_cex2:
  "\<not> float_lit (1 / 100) < \<bar>fsub (fadd (fadd (1 / 2) (- (1 / 2))) 1) (float_lit 1)\<bar>"
  by (simp add: float_lit_def fadd_def fsub_def fl_0 fl_1 fl_1_100)

theorem split_dataset_sizes_counterexample:
  "\<not> float_lit (1 / 100) < \<bar>fsub (fadd (fadd (1 / 2) (65 / 128)) 0) (float_lit 1)\<bar>
   \<and> int_of_float (fmul (float_of_int 128) (65 / 128)) = 65
   \<and> map_sum id (\<lambda>(train, val, test). (length train, length val, length test))
        (fst (split_dataset (\<lambda>i. i) 0 (1 / 2) (65 / 128) 0 \<lparr>heap = [[0..<128]], rng_pos = 0\<rparr>))
       = Inr (64, 64, 0)
   \<and> \<not> float_lit (1 / 100) < \<bar>fsub (fadd (fadd (1 / 2) (- (1 / 2))) 1) (float_lit 1)\<bar>
   \<and> map_sum id (\<lambda>(train, val, test). (length train, length val, length test))
        (fst (split_dataset (\<lambda>i. i) 0 (1 / 2) (- (1 / 2)) 1 \<lparr>heap = [[10, 20 :: nat]], rng_pos = 0\<rparr>))
       = Inr (1, 0, 2)"
proof -
  have c65: "int_of_float (fmul (float_of_int 128) (65 / 128)) = 65"
    by (simp add: int_of_float_def fmul_def float_of_int_def fl_128 fl_65)
  have c64: "int_of_float (fmul (float_of_int 128) (1 / 2)) = 64"
    by (simp add: int_of_float_def fmul_def float_of_int_def fl_128 fl_64)
  have c1: "int_of_float (fmul (float_of_int 2) (1 / 2)) = 1"
    by (simp add: int_of_float_def fmul_def float_of_int_def fl_2 fl_1)
  have "\<lceil>rat_of_int (- 1)\<rceil> = - 1"
    by (rule ceiling_of_int)
  then have cm1: "int_of_float (fmul (float_of_int 2) (- (1 / 2))) = - 1"
    by (simp add: int_of_float_def fmul_def float_of_int_def fl_2 fl_m1)
  have a: "map_sum id (\<lambda>(train, val, test). (length train, length val, length test))
        (fst (split_dataset (\<lambda>i. i) 0 (1 / 2) (65 / 128) 0 \<lparr>heap = [[0..<128]], rng_pos = 0\<rparr>))
       = Inr (64, 64, 0)"
    by (simp add: split_dataset_accept [OF tol_cex1] Let_def shuffled_length c64 c65
        py_slice_def slice_index_def)
  have b: "map_sum id (\<lambda>(train, val, test). (length train, length val, length test))
        (fst (split_dataset (\<lambda>i. i) 0 (1 / 2) (- (1 / 2)) 1 \<lparr>heap = [[10, 20 :: nat]], rng_pos = 0\<rparr>))
       = Inr (1, 0, 2)"
    by (simp add: split_dataset_accept [OF tol_cex2] Let_def shuffled_length c1 cm1
        py_slice_def slice_index_def)
  show ?thesis
    using tol_cex1 tol_cex2 c65 a b by blast
qed

lemma fl_3_4: "fl (3 / 4) = 3 / 4" using fl_dyadic [of 3 2] by simp
lemma fl_1_2: "fl (1 / 2) = 1 / 2" using fl_dyadic [of 1 1] by simp
lemma fl_3_2: "fl (3 / 2) = 3 / 2" using fl_dyadic [of 3 1] by simp
lemma fl_4: "fl 4 = 4" using fl_of_int [of 4] by simp

lemma tol_quarters:
  "\<not> float_lit (1 / 100) < \<bar>fsub (fadd (fadd (1 / 2) (1 / 4)) (1 / 4)) (float_lit 1)\<bar>"
  by (simp add: float_lit_def fadd_def fsub_def fl_3_4 fl_1 fl_0 fl_1_100)

lemma tol_halves:
  "float_lit (1 / 100) < \<bar>fsub (fadd (fadd (1 / 2) (1 / 2)) (1 / 2)) (float_lit 1)\<bar>"
  by (simp add: float_lit_def fadd_def fsub_def fl_3_2 fl_1 fl_1_2 fl_1_100)

theorem split_dataset_partition_witness:
  "\<not> float_lit (1 / 100) < \<bar>fsub (fadd (fadd (1 / 2) (1 / 4)) (1 / 4)) (float_lit 1)\<bar>
   \<and> (0::rat) \<le> 1 / 2 \<and> (0::rat) \<le> 1 / 4
   \<and> distinct [10, 20, 30, 40 :: nat]
   \<and> (\<exists>train val test s'.
        split_dataset (\<lambda>i. i) 0 (1 / 2) (1 / 4) (1 / 4) \<lparr>heap = [[10, 20, 30, 40 :: nat]], rng_pos = 0\<rparr>
          = (Inr (train, val, test), s')
      \<and> mset train + mset val + mset test = mset [10, 20, 30, 40]
      \<and> length train = 2 \<and> length val = 1 \<and> length test = 1
      \<and> set train \<inter> set val = {} \<and> set train \<inter> set test = {} \<and> set val \<inter> set test = {})"
proof -
  have c2: "int_of_float (fmul (float_of_int 4) (1 / 2)) = 2"
    by (simp add: int_of_float_def fmul_def float_of_int_def fl_4 fl_2)
  have c1: "int_of_float (fmul (float_of_int 4) (1 / 4)) = 1"
    by (simp add: int_of_float_def fmul_def float_of_int_def fl_4 fl_1)
  have h1: "(0::rat) \<le> 1 / 2" and h2: "(0::rat) \<le> 1 / 4"
    by simp_all
  show ?thesis
    using tol_quarters
      split_dataset_partition [OF tol_quarters h1 h2, of "\<lambda>i. i" 0
        "\<lparr>heap = [[10, 20, 30, 40 :: nat]], rng_pos = 0\<rparr>"]
    by (simp add: c1 c2) (elim exE conjE, intro exI conjI, assumption, simp_all)
qed

theorem split_dataset_rejects_witness:
  "float_lit (1 / 100) < \<bar>fsub (fadd (fadd (1 / 2) (1 / 2)) (1 / 2)) (float_lit 1)\<bar>
   \<and> split_dataset (\<lambda>i. i) 0 (1 / 2) (1 / 2) (1 / 2) \<lparr>heap = [[10, 20, 30 :: nat]], rng_pos = 5\<rparr> =
       (Inl (ValueError (RatioSum (3 / 2))), \<lparr>heap = [[10, 20, 30]], rng_pos = 5\<rparr>)"
  using tol_halves
    split_dataset_rejects [OF tol_halves, of "\<lambda>i. i" 0 "\<lparr>heap = [[10, 20, 30 :: nat]], rng_pos = 5\<rparr>"]
  by (simp add: fadd_def fl_1 fl_3_2)


lemma fl_1_3: "fl (1 / 3) = 6004799503160661 / 18014398509481984"
proof -
  have "fl (1 / 3) = of_int 6004799503160661 * 2 powi (- 54)"
    by (rule fl_cert) simp_all
  then show ?thesis by simp
qed

lemma fl_2_3: "fl (2 / 3) = 6004799503160661 / 9007199254740992"
proof -
  have "fl (2 / 3) = of_int 6004799503160661 * 2 powi (- 53)"
    by (rule fl_cert) simp_all
  then show ?thesis by simp
qed

lemma fl_third_times_100:
  "fl (150119987579016525 / 4503599627370496) = 2345624805922133 / 70368744177664"
proof -
  have "fl (150119987579016525 / 4503599627370496) =
          of_int 4691249611844266 * 2 powi (- 47)"
    by (rule fl_cert) simp_all
  then show ?thesis by simp
qed

lemma fl_two_thirds_times_100:
  "fl (150119987579016525 / 2251799813685248) = 2345624805922133 / 35184372088832"
proof -
  have "fl (150119987579016525 / 2251799813685248) =
          of_int 4691249611844266 * 2 powi (- 46)"
    by (rule fl_cert) simp_all
  then show ?thesis by simp
qed

lemma int_of_float_eqI:
  assumes "0 \<le> z" and "of_int z \<le> x" and "x < of_int z + 1"
  shows "int_of_float x = z"
proof -
  have "(0::rat) \<le> of_int z" using assms(1) by simp
  with assms(2) have "0 \<le> x" by linarith
  moreover have "\<lfloor>x\<rfloor> = z"
    using assms(2,3) by (rule floor_unique)
  ultimately show ?thesis by (simp add: int_of_float_def)
qed

lemma int_of_float_33: "int_of_float (2345624805922133 / 70368744177664) = 33"
  by (rule int_of_float_eqI) simp_all

lemma int_of_float_66: "int_of_float (2345624805922133 / 35184372088832) = 66"
  by (rule int_of_float_eqI) simp_all

lemma int_of_float_100: "int_of_float 100 = 100"
  by (rule int_of_float_eqI) simp_all

lemma epoch_0_of_3: "on_train_epoch_end 0 3 = Inr 33"
  by (simp add: on_train_epoch_end_def truediv_int_def fmul_def float_of_int_def
      fl_1_3 fl_100 fl_third_times_100 int_of_float_33)

lemma epoch_1_of_3: "on_train_epoch_end 1 3 = Inr 66"
  by (simp add: on_train_epoch_end_def truediv_int_def fmul_def float_of_int_def
      fl_2_3 fl_100 fl_two_thirds_times_100 int_of_float_66)

lemma epoch_2_of_3: "on_train_epoch_end 2 3 = Inr 100"
  by (simp add: on_train_epoch_end_def truediv_int_def fmul_def float_of_int_def
      fl_1 fl_100 int_of_float_100)

lemma progress_values_3: "progress_values 3 = [Inr 33, Inr 66, Inr 100]"
proof -
  have "[0..<3] = [0, 1, 2]"
    by (simp add: numeral_3_eq_3 upt_rec)
  then show ?thesis
    by (simp add: progress_values_def epoch_0_of_3 epoch_1_of_3 epoch_2_of_3)
qed

text \<open>
  C2 (as stated, refuted). A three-epoch run does not emit \<open>33, 67, 100\<close>: the value at the
  end of the second epoch is \<open>int(2 / 3 * 100) = 66\<close>.
\<close>

theorem progress_values_counterexample:
  "progress_values 3 \<noteq> [Inr 33, Inr 67, Inr 100] \<and> on_train_epoch_end 1 3 = Inr 66"
  by (simp add: progress_values_3 epoch_1_of_3)

text \<open>
  C2 (amended). For every run with \<open>epochs \<ge> 1\<close>, the progress value emitted at the end of
  epoch \<open>i\<close> (0-based) is the integer truncation of the float \<open>(i + 1) / epochs * 100\<close>; a
  three-epoch run emits \<open>33, 66, 100\<close>, in strictly increasing order.
\<close>

theorem on_train_epoch_end_progress:
  "(1 \<le> epochs \<longrightarrow>
      on_train_epoch_end epoch epochs =
        Inr (int_of_float (fmul (fl (of_int (epoch + 1) / of_int epochs)) (float_of_int 100))))
   \<and> progress_values 3 = [Inr 33, Inr 66, Inr 100]
   \<and> (33::int) < 66 \<and> (66::int) < 100"
  by (simp add: progress_values_3 on_train_epoch_end_def truediv_int_def)

theorem on_train_epoch_end_progress_witness:
  "(1::int) \<le> 3
   \<and> on_train_epoch_end 1 3 = Inr (int_of_float (fmul (fl (of_int (1 + 1) / of_int 3)) (float_of_int 100)))
   \<and> int_of_float (fmul (fl (of_int (1 + 1) / of_int 3)) (float_of_int 100)) = 66"
proof -
  have "int_of_float (fmul (fl (of_int (1 + 1) / of_int 3)) (float_of_int 100)) = 66"
    by (simp add: fmul_def float_of_int_def fl_2_3 fl_100 fl_two_thirds_times_100
        int_of_float_66)
  then show ?thesis
    using on_train_epoch_end_progress [of 3 1] by simp
qed

lemma fl_eps: "fl (1 / 10 ^ 16) = 2028240960365167 / 20282409603651670423947251286016"
proof -
  have "fl (1 / 10 ^ 16) = of_int 8112963841460668 * 2 powi (- 106)"
    by (rule fl_cert) simp_all
  then show ?thesis by simp
qed

lemma float_lit_eps:
  "float_lit (1 / 10000000000000000) = 2028240960365167 / 20282409603651670423947251286016"
  using fl_eps by (simp add: float_lit_def)

lemma fl_eps_value:
  "fl (2028240960365167 / 20282409603651670423947251286016) =
     2028240960365167 / 20282409603651670423947251286016"
  using fl_dyadic [of 2028240960365167 104] by simp

text \<open>
  C9. The F1 score is \<open>2 * (precision * recall) / (precision + recall + 1e-16)\<close>, the
  epsilon \<open>1e-16\<close> being added to the denominator; for precision \<open>0.0\<close> and recall
  \<open>0.0\<close> the result is \<open>0.0\<close>, and no division-by-zero error is raised.
\<close>

theorem f1_score_zero:
  "f1_score mp mr =
     fdiv (fmul (float_of_int 2) (fmul mp mr)) (fadd (fadd mp mr) (float_lit (1 / 10 ^ 16)))
   \<and> float_lit (1 / 10 ^ 16) = 2028240960365167 / 20282409603651670423947251286016
   \<and> f1_score 0 0 = Inr 0
   \<and> f1_score 0 0 \<noteq> Inl ZeroDivisionError"
proof -
  have eps: "float_lit (1 / 10 ^ 16) = 2028240960365167 / 20282409603651670423947251286016"
    using float_lit_eps by simp
  have zero: "f1_score 0 0 = Inr 0"
    by (simp add: f1_score_def fdiv_def fmul_def fadd_def float_of_int_def fl_0 fl_2
        float_lit_eps fl_eps_value)
  show ?thesis
    using eps zero by (simp add: f1_score_def)
qed

text \<open>
  C7 (the code at the failing input). The label file of the train split holds one
  annotation line and one empty line: the aggregator reports two annotations, and a class
  distribution whose counts add up to one.
\<close>

theorem split_statistics_blank_line:
  "split_statistics blank_line_fs (Path False [''d'']) ''train'' =
     Inr \<lparr>stat_images = 1, stat_labels = 1, stat_annotations = 2, class_distribution = [(0, 1)]\<rparr>
   \<and> map_sum id (\<lambda>st. (stat_annotations st, sum_list (map snd (class_distribution st))))
        (split_statistics blank_line_fs (Path False [''d'']) ''train'') = Inr (2, 1)"
  by code_simp

lemma find_label_file_None:
  "\<forall>l \<in> set label_files. stem l \<noteq> stem image_file \<Longrightarrow>
     find_label_file image_file label_files = None"
  by (induction label_files) auto

theorem collect_files_counterexample:
  "fst (collect_files example_fs (Path True [''w'', ''images''])) =
     [Path True [''w'', ''images'', ''a.jpg''], Path False [''images'', ''a.jpg'']]
   \<and> resolve example_fs (Path True [''w'', ''images'', ''a.jpg'']) =
       resolve example_fs (Path False [''images'', ''a.jpg''])"
  by code_simp

text \<open>
  C6 (amended). The image list and the label list returned by \<^verbatim>\<open>_collect_files\<close> contain
  no path twice, where paths are compared as \<^verbatim>\<open>Path\<close> values (anchor and components as
  spelled, not resolved); and an image whose stem equals the stem of no annotation file
  yields \<^verbatim>\<open>None\<close> from \<^verbatim>\<open>_find_label_file\<close>.
\<close>

theorem collect_files_distinct:
  "distinct (fst (collect_files fs src)) \<and> distinct (snd (collect_files fs src))
   \<and> ((\<forall>l \<in> set label_files. stem l \<noteq> stem image_file) \<longrightarrow>
        find_label_file image_file label_files = None)"
  by (simp add: collect_files_def Let_def find_label_file_None)

theorem collect_files_distinct_witness:
  "stem (Path False [''images'', ''a.txt'']) \<noteq> stem (Path False [''images'', ''b.jpg''])
   \<and> find_label_file (Path False [''images'', ''b.jpg'']) [Path False [''images'', ''a.txt'']] = None
   \<and> distinct (fst (collect_files example_fs (Path False [])))
   \<and> fst (collect_files example_fs (Path False [])) = [Path False [''images'', ''a.jpg'']]"
proof -
  have h: "stem (Path False [''images'', ''a.txt'']) \<noteq> stem (Path False [''images'', ''b.jpg''])"
    by code_simp
  have c: "fst (collect_files example_fs (Path False [])) = [Path False [''images'', ''a.jpg'']]"
    by code_simp
  from collect_files_distinct [of example_fs "Path False []" "[Path False [''images'', ''a.txt'']]"
      "Path False [''images'', ''b.jpg'']"] h c
  show ?thesis by simp
qed

lemma mkdir_parents_Inr:
  assumes "mkdir_parents p fs = Inr fs'"
  shows "regular_files fs' = regular_files fs" and "cwd fs' = cwd fs" and "set (dirs fs) \<subseteq> set (dirs fs')"
    and "resolve fs p \<in> set (dirs fs')"
proof -
  have fs': "fs' = fs\<lparr>dirs := dirs fs @ filter (\<lambda>d. d \<notin> set (dirs fs))
                         (ancestors_and_self (resolve fs p))\<rparr>"
    using assms by (simp add: mkdir_parents_def Let_def split: if_splits)
  show "regular_files fs' = regular_files fs" "cwd fs' = cwd fs" "set (dirs fs) \<subseteq> set (dirs fs')"
    by (simp_all add: fs')
  have "resolve fs p \<in> set (ancestors_and_self (resolve fs p))"
  proof -
    have "take (length (resolve fs p)) (resolve fs p) \<in>
            (\<lambda>i. take i (resolve fs p)) ` {0..<Suc (length (resolve fs p))}"
      by (rule imageI) simp
    then show ?thesis by (simp add: ancestors_and_self_def)
  qed
  then show "resolve fs p \<in> set (dirs fs')"
    by (auto simp: fs')
qed

lemma mkdir_all_None:
  "mkdir_all ps fs = (None, fs') \<Longrightarrow>
     regular_files fs' = regular_files fs \<and> cwd fs' = cwd fs \<and> set (dirs fs) \<subseteq> set (dirs fs')
     \<and> resolve fs ` set ps \<subseteq> set (dirs fs')"
proof (induction ps arbitrary: fs)
  case Nil
  then show ?case by simp
next
  case (Cons p ps)
  from Cons.prems obtain fs1 where 1: "mkdir_parents p fs = Inr fs1"
    and 2: "mkdir_all ps fs1 = (None, fs')"
    by (auto split: sum.splits)
  note a = mkdir_parents_Inr [OF 1]
  note b = Cons.IH [OF 2]
  have res: "resolve fs1 = resolve fs"
    by (rule ext) (simp add: resolve_def a(2))
  show ?case
    using a b by (auto simp: res)
qed

text \<open>
  C3 (amended). When the discovered image-file set is empty, \<^verbatim>\<open>prepare_yolo_dataset\<close> raises
  the \<^verbatim>\<open>ValueError\<close> after \<^verbatim>\<open>_create_dataset_structure\<close> has run: the split directories of
  the dataset exist afterwards, next to every directory that existed before. No file is
  copied or written (the regular files and their contents are unchanged), no list is
  shuffled and no progress is reported.
\<close>

theorem prepare_yolo_dataset_no_images:
  assumes "create_dataset_structure (joinpath (output_dir prep) (config_dataset_name config)) (fsys w)
             = (None, fs1)"
    and "fst (collect_files fs1 (source_dir prep)) = []"
  shows "prepare_yolo_dataset env prep config w = (Inl (ValueError NoImageFiles), w\<lparr>fsys := fs1\<rparr>)
    \<and> regular_files fs1 = regular_files (fsys w)
    \<and> set (dirs (fsys w)) \<subseteq> set (dirs fs1)
    \<and> resolve (fsys w) ` set (split_dirs (joinpath (output_dir prep) (config_dataset_name config)))
        \<subseteq> set (dirs fs1)"
proof -
  obtain lbls where cf: "collect_files fs1 (source_dir prep) = ([], lbls)"
    using assms(2) by (cases "collect_files fs1 (source_dir prep)") simp
  have run: "prepare_yolo_dataset env prep config w =
               (Inl (ValueError NoImageFiles), w\<lparr>fsys := fs1\<rparr>)"
    by (simp add: prepare_yolo_dataset_def Let_def assms(1) cf)
  from assms(1) have "mkdir_all (split_dirs (joinpath (output_dir prep) (config_dataset_name config)))
      (fsys w) = (None, fs1)"
    by (simp add: create_dataset_structure_def)
  from mkdir_all_None [OF this] run show ?thesis by simp
qed

theorem prepare_yolo_dataset_no_images_witness:
  "create_dataset_structure (joinpath (output_dir dialog_preparer) (config_dataset_name example_config))
       (fsys \<lparr>fsys = empty_fs, mem = \<lparr>heap = [], rng_pos = 0\<rparr>, reported = []\<rparr>)
     = (None, snd (create_dataset_structure (Path False [''datasets'', ''vehicle_dataset'']) empty_fs))
   \<and> fst (collect_files
            (snd (create_dataset_structure (Path False [''datasets'', ''vehicle_dataset'']) empty_fs))
            (source_dir dialog_preparer)) = []
   \<and> fst (prepare_yolo_dataset example_env dialog_preparer example_config
            \<lparr>fsys = empty_fs, mem = \<lparr>heap = [], rng_pos = 0\<rparr>, reported = []\<rparr>)
       = Inl (ValueError NoImageFiles)
   \<and> regular_files (fsys (snd (prepare_yolo_dataset example_env dialog_preparer example_config
            \<lparr>fsys = empty_fs, mem = \<lparr>heap = [], rng_pos = 0\<rparr>, reported = []\<rparr>))) = []"
proof -
  let ?fs1 = "snd (create_dataset_structure (Path False [''datasets'', ''vehicle_dataset'']) empty_fs)"
  let ?w = "\<lparr>fsys = empty_fs, mem = \<lparr>heap = [], rng_pos = 0\<rparr>, reported = []\<rparr> :: world"
  have h1: "create_dataset_structure (joinpath (output_dir dialog_preparer) (config_dataset_name example_config))
       (fsys ?w) = (None, ?fs1)"
    by code_simp
  have h2: "fst (collect_files ?fs1 (source_dir dialog_preparer)) = []"
    by code_simp
  from prepare_yolo_dataset_no_images [OF h1 h2, of example_env] h1 h2
  show ?thesis by simp
qed

text \<open>
  C3 (as stated, refuted). In an empty working directory the preparation raises the
  \<^verbatim>\<open>ValueError\<close>, and the directory \<^verbatim>\<open>datasets/vehicle_dataset/images/train\<close>, which did not
  exist before the call, exists after it.
\<close>

theorem prepare_yolo_dataset_counterexample:
  "fst (prepare_yolo_dataset example_env dialog_preparer example_config
          \<lparr>fsys = empty_fs, mem = \<lparr>heap = [], rng_pos = 0\<rparr>, reported = []\<rparr>)
     = Inl (ValueError NoImageFiles)
   \<and> [''w'', ''datasets'', ''vehicle_dataset'', ''images'', ''train'']
       \<in> set (dirs (fsys (snd (prepare_yolo_dataset example_env dialog_preparer example_config
            \<lparr>fsys = empty_fs, mem = \<lparr>heap = [], rng_pos = 0\<rparr>, reported = []\<rparr>))))
   \<and> [''w'', ''datasets'', ''vehicle_dataset'', ''images'', ''train''] \<notin> set (dirs empty_fs)"
  by code_simp

lemma fl_eq_0_iff: "fl q = 0 \<longleftrightarrow> q = 0"
proof
  assume z: "fl q = 0"
  have "\<bar>fl q - q\<bar> \<le> \<bar>q\<bar> / 2 ^ 53" by (rule fl_error)
  then have "\<bar>q\<bar> \<le> \<bar>q\<bar> / 2 ^ 53" by (simp add: z)
  then have "\<bar>q\<bar> * 2 ^ 53 \<le> \<bar>q\<bar>" by (simp add: field_simps)
  then have "\<bar>q\<bar> \<le> 0" by simp
  then show "q = 0" by simp
next
  assume "q = 0"
  then show "fl q = 0" by (simp add: fl_def)
qed

lemma float_of_int_eq_0_iff: "float_of_int i = 0 \<longleftrightarrow> i = 0"
  by (simp add: float_of_int_def fl_eq_0_iff)

lemma encode_annotation_zero:
  "img_w = 0 \<or> img_h = 0 \<Longrightarrow> encode_annotation img_w img_h a = Inl ZeroDivisionError"
  by (auto simp: encode_annotation_def Let_def truediv_int_def fdiv_def float_of_int_eq_0_iff)

lemma encode_annotation_nonzero:
  assumes "img_w \<noteq> 0" and "img_h \<noteq> 0"
  shows "encode_annotation img_w img_h a =
    Inr \<lparr>line_class_id = class_id a,
         x_center = fmt10 (fl (fl (of_int (qx (rect a) + (qx (rect a) + qwidth (rect a))) / 2)
                                / fl (of_int img_w))),
         y_center = fmt10 (fl (fl (of_int (qy (rect a) + (qy (rect a) + qheight (rect a))) / 2)
                                / fl (of_int img_h))),
         width = fmt10 (fl (of_int \<bar>qx (rect a) + qwidth (rect a) - qx (rect a)\<bar> / of_int img_w)),
         height = fmt10 (fl (of_int \<bar>qy (rect a) + qheight (rect a) - qy (rect a)\<bar> / of_int img_h))\<rparr>"
  using assms
  by (simp add: encode_annotation_def Let_def truediv_int_def fdiv_def float_of_int_eq_0_iff)
    (simp add: float_of_int_def)

text \<open>
  C8. For every non-empty annotation list, encoding against an image whose width or height
  is zero or negative (Qt reports no negative size, so: is zero) fails at the first
  annotation with \<^verbatim>\<open>ZeroDivisionError\<close>, and no line, so no \<^verbatim>\<open>inf\<close> or \<^verbatim>\<open>nan\<close>, is written to
  the label file.
\<close>

theorem export_annotations_zero_dimension:
  assumes "anns \<noteq> []" and "int (pixmap_width img) \<le> 0 \<or> int (pixmap_height img) \<le> 0"
  shows "export_annotations img anns =
           \<lparr>raised = Some ZeroDivisionError, output_dir_made = True, label_file = Some []\<rparr>"
proof -
  obtain a rest where anns: "anns = a # rest"
    using assms(1) by (cases anns) auto
  have "int (pixmap_width img) = 0 \<or> int (pixmap_height img) = 0"
    using assms(2) by auto
  then have "encode_annotation (int (pixmap_width img)) (int (pixmap_height img)) a =
               Inl ZeroDivisionError"
    by (rule encode_annotation_zero)
  then show ?thesis
    by (simp add: export_annotations_def anns Let_def)
qed

theorem export_annotations_zero_dimension_witness:
  "[example_annotation] \<noteq> []
   \<and> int (pixmap_width \<lparr>pixmap_width = 0, pixmap_height = 480\<rparr>) \<le> 0
   \<and> export_annotations \<lparr>pixmap_width = 0, pixmap_height = 480\<rparr> [example_annotation] =
       \<lparr>raised = Some ZeroDivisionError, output_dir_made = True, label_file = Some []\<rparr>"
proof -
  have h1: "[example_annotation] \<noteq> []" by simp
  have h2: "int (pixmap_width \<lparr>pixmap_width = 0, pixmap_height = 480\<rparr>) \<le> 0
          \<or> int (pixmap_height \<lparr>pixmap_width = 0, pixmap_height = 480\<rparr>) \<le> 0"
    by simp
  from export_annotations_zero_dimension [OF h1 h2] show ?thesis by simp
qed

lemma fmt10_error: "\<bar>fmt10 y - y\<bar> \<le> 1 / (2 * 10 ^ 10)"
proof -
  define K :: rat where "K = 10 ^ 10"
  define z :: rat where "z = of_int (round_half_even (y * K)) - y * K"
  have K: "0 < K" by (simp add: K_def)
  have f: "fmt10 y = of_int (round_half_even (y * K)) / K"
    by (simp add: fmt10_def K_def)
  have "fmt10 y - y = z / K"
    unfolding f z_def using K by (simp add: field_simps)
  then have "\<bar>fmt10 y - y\<bar> = \<bar>z\<bar> / K"
    using K by (simp add: abs_divide)
  also have "\<dots> \<le> (1 / 2) / K"
    using round_half_even_error [of "y * K"] K
    unfolding z_def by (intro divide_right_mono) simp_all
  finally show ?thesis by (simp add: K_def)
qed

lemma unit_fraction_rounding:
  assumes "0 \<le> q" and "q \<le> 1"
  shows "\<bar>fmt10 (fl q) - q\<bar> \<le> 1 / (2 * 10 ^ 10) + 1 / 2 ^ 53"
proof -
  have "\<bar>fl q - q\<bar> \<le> \<bar>q\<bar> / 2 ^ 53" by (rule fl_error)
  also have "\<dots> \<le> 1 / 2 ^ 53"
    using assms by (intro divide_right_mono) simp_all
  finally have 1: "\<bar>fl q - q\<bar> \<le> 1 / 2 ^ 53" .
  have 2: "\<bar>fmt10 (fl q) - fl q\<bar> \<le> 1 / (2 * 10 ^ 10)" by (rule fmt10_error)
  have "\<bar>fmt10 (fl q) - q\<bar> \<le> \<bar>fmt10 (fl q) - fl q\<bar> + \<bar>fl q - q\<bar>"
    by linarith
  with 1 2 show ?thesis by linarith
qed

text \<open>
  One axis of the codec: a box side at position \<open>p\<close> with extent \<open>b\<close>, inside an image of
  size \<open>n\<close>; \<open>c\<close> is the printed centre and \<open>e\<close> the printed size.
\<close>

lemma axis_roundtrip:
  fixes p b n :: int
  assumes n: "1 \<le> n" "n \<le> 10000" and p: "0 \<le> p" and b: "0 \<le> b" and inside: "p + b \<le> n"
  defines "c \<equiv> fmt10 (fl (fl (of_int (p + (p + b)) / 2) / fl (of_int n)))"
    and "e \<equiv> fmt10 (fl (of_int \<bar>p + b - p\<bar> / of_int n))"
  shows "\<bar>(c - e / 2) * of_int n - of_int p\<bar> \<le> 1" and "\<bar>e * of_int n - of_int b\<bar> \<le> 1"
proof -
  define N :: rat where "N = of_int n"
  define q :: rat where "q = of_int (p + (p + b)) / 2 / N"
  define r :: rat where "r = of_int b / N"
  define d :: rat where "d = 1 / (2 * 10 ^ 10) + 1 / 2 ^ 53"
  have N1: "1 \<le> N" and N2: "N \<le> 10000"
    using n by (simp_all add: N_def)
  have Npos: "0 < N" using N1 by linarith
  have fln: "fl (of_int n) = N"
    unfolding N_def using n by (intro fl_of_int) simp
  have fls: "fl (of_int (p + (p + b)) / 2) = of_int (p + (p + b)) / 2"
  proof -
    have "\<bar>p + (p + b)\<bar> < 2 ^ 53"
      using n p b inside by simp
    from fl_exact [OF this, of "- 1"] show ?thesis by simp
  qed
  have q0: "0 \<le> q"
    using p b Npos by (simp add: q_def)
  have q1: "q \<le> 1"
  proof -
    have "p + (p + b) \<le> 2 * n" using p b inside by simp
    then have "(of_int (p + (p + b)) :: rat) \<le> of_int (2 * n)"
      by (simp only: of_int_le_iff)
    then have "(of_int (p + (p + b)) :: rat) / 2 \<le> N"
      by (simp add: N_def)
    then show ?thesis
      using Npos by (simp add: q_def pos_divide_le_eq)
  qed
  have r0: "0 \<le> r"
    using b Npos by (simp add: r_def)
  have r1: "r \<le> 1"
  proof -
    have "b \<le> n" using p inside by simp
    then have "(of_int b :: rat) \<le> N"
      unfolding N_def by (simp only: of_int_le_iff)
    then show ?thesis
      using Npos by (simp add: r_def pos_divide_le_eq)
  qed
  have c: "c = fmt10 (fl q)"
    by (simp only: c_def q_def fln fls)
  have ab: "\<bar>p + b - p\<bar> = b"
    using b by simp
  have e: "e = fmt10 (fl r)"
    by (simp only: e_def r_def N_def ab)
  have dc: "\<bar>c - q\<bar> \<le> d"
    unfolding c d_def by (rule unit_fraction_rounding [OF q0 q1])
  have de: "\<bar>e - r\<bar> \<le> d"
    unfolding e d_def by (rule unit_fraction_rounding [OF r0 r1])
  have qN: "q * N = of_int (p + (p + b)) / 2"
    using Npos by (simp add: q_def)
  have rN: "r * N = of_int b"
    using Npos by (simp add: r_def)
  have d_small: "3 / 2 * d * 10000 \<le> 1"
    by (simp add: d_def)
  have d0: "0 \<le> d" by (simp add: d_def)
  have "((c - q) - (e - r) / 2) * N = (c - e / 2) * N - q * N + r * N / 2"
    by (simp add: field_simps)
  also have "\<dots> = (c - e / 2) * N - of_int (p + (p + b)) / 2 + of_int b / 2"
    by (simp only: qN rN)
  also have "\<dots> = (c - e / 2) * N - of_int p"
    by (simp add: field_simps)
  finally have "(c - e / 2) * N - of_int p = ((c - q) - (e - r) / 2) * N"
    by simp
  then have "\<bar>(c - e / 2) * N - of_int p\<bar> = \<bar>(c - q) - (e - r) / 2\<bar> * N"
    using Npos by (simp add: abs_mult)
  also have "\<dots> \<le> (3 / 2 * d) * 10000"
  proof (rule mult_mono)
    show "\<bar>(c - q) - (e - r) / 2\<bar> \<le> 3 / 2 * d"
      using dc de unfolding abs_le_iff by (simp add: field_simps)
    show "N \<le> 10000" by (rule N2)
    show "0 \<le> 3 / 2 * d" using d0 by simp
    show "0 \<le> N" using Npos by simp
  qed
  also have "\<dots> \<le> 1" using d_small by simp
  finally show "\<bar>(c - e / 2) * of_int n - of_int p\<bar> \<le> 1"
    by (simp add: N_def)
  have "(e - r) * N = e * N - r * N"
    by (simp add: algebra_simps)
  then have "e * N - of_int b = (e - r) * N"
    by (simp only: rN)
  then have "\<bar>e * N - of_int b\<bar> = \<bar>e - r\<bar> * N"
    using Npos by (simp add: abs_mult)
  also have "\<dots> \<le> d * 10000"
    using de N2 d0 Npos by (intro mult_mono) simp_all
  also have "\<dots> \<le> 1" using d_small d0 by simp
  finally show "\<bar>e * of_int n - of_int b\<bar> \<le> 1"
    by (simp add: N_def)
qed

text \<open>
  C5. For every image width and height from 1 to 10,000 and every bounding box fully inside
  the image, the annotation line that \<^verbatim>\<open>export_annotations\<close> writes for the box, with its
  ten decimal places, decodes to a box whose position and size are within one pixel of the
  original.
\<close>

theorem decode_encode_roundtrip:
  assumes "1 \<le> w" and "w \<le> 10000" and "1 \<le> h" and "h \<le> 10000"
    and "0 \<le> qx r" and "0 \<le> qwidth r" and "qx r + qwidth r \<le> w"
    and "0 \<le> qy r" and "0 \<le> qheight r" and "qy r + qheight r \<le> h"
  shows "\<exists>l. encode_annotation w h \<lparr>rect = r, class_id = c\<rparr> = Inr l
    \<and> line_class_id l = c
    \<and> \<bar>fst (decode l w h) - of_int (qx r)\<bar> \<le> 1
    \<and> \<bar>fst (snd (decode l w h)) - of_int (qy r)\<bar> \<le> 1
    \<and> \<bar>fst (snd (snd (decode l w h))) - of_int (qwidth r)\<bar> \<le> 1
    \<and> \<bar>snd (snd (snd (decode l w h))) - of_int (qheight r)\<bar> \<le> 1"
proof -
  have w0: "w \<noteq> 0" and h0: "h \<noteq> 0"
    using assms(1,3) by simp_all
  note enc = encode_annotation_nonzero [OF w0 h0, of "\<lparr>rect = r, class_id = c\<rparr>"]
  note ax = axis_roundtrip [OF assms(1,2,5,6,7)]
  note ay = axis_roundtrip [OF assms(3,4,8,9,10)]
  show ?thesis
    using ax ay by (simp add: enc decode_def)
qed

theorem decode_encode_roundtrip_witness:
  "(1::int) \<le> 640 \<and> (640::int) \<le> 10000 \<and> (1::int) \<le> 480 \<and> (480::int) \<le> 10000
   \<and> 0 \<le> qx (rect example_annotation) \<and> 0 \<le> qwidth (rect example_annotation)
   \<and> qx (rect example_annotation) + qwidth (rect example_annotation) \<le> 640
   \<and> 0 \<le> qy (rect example_annotation) \<and> 0 \<le> qheight (rect example_annotation)
   \<and> qy (rect example_annotation) + qheight (rect example_annotation) \<le> 480
   \<and> (\<exists>l. encode_annotation 640 480 example_annotation = Inr l
        \<and> line_class_id l = 0
        \<and> \<bar>fst (decode l 640 480) - 10\<bar> \<le> 1
        \<and> \<bar>fst (snd (decode l 640 480)) - 10\<bar> \<le> 1
        \<and> \<bar>fst (snd (snd (decode l 640 480))) - 20\<bar> \<le> 1
        \<and> \<bar>snd (snd (snd (decode l 640 480))) - 20\<bar> \<le> 1)"
  using decode_encode_roundtrip [of 640 480 "rect example_annotation" 0]
  by simp

end
